theory Spec2Isabelle
  imports Main
begin

section \<open>tito's builder hierarchy (src/tito/builder.py)\<close>

text \<open>
  A shallow embedding of the parts of \<^verbatim>\<open>builder.py\<close> that decide how a build is named,
  how rpmbuild's output is read, which Koji tags a package is submitted to, how files
  are synced into a build system checkout and how a generated patch is inserted into a
  spec file. Python strings are \<^typ>\<open>string\<close>, Python lists are HOL lists, every
  \<^verbatim>\<open>error_out\<close> of the source is a value of \<open>error\<close>, and the mutable fields of a
  \<^verbatim>\<open>Builder\<close> object are a record that each method takes and returns.
\<close>

subsection \<open>Python string operations used by the builder\<close>

text \<open>\<^verbatim>\<open>s.startswith(p)\<close> and \<^verbatim>\<open>s.endswith(p)\<close>.\<close>

definition startswith :: "string \<Rightarrow> string \<Rightarrow> bool" where
  "startswith s p = (take (length p) s = p)"

definition endswith :: "string \<Rightarrow> string \<Rightarrow> bool" where
  "endswith s p = (length p \<le> length s \<and> drop (length s - length p) s = p)"

text \<open>
  \<^verbatim>\<open>s.split(sep)\<close> for a separator of one character: every occurrence of the
  separator ends a field, so the result is never empty and \<^verbatim>\<open>"".split(" ")\<close> is
  \<^verbatim>\<open>[""]\<close>.
\<close>

fun split_on :: "char \<Rightarrow> string \<Rightarrow> string list" where
  "split_on c [] = [[]]"
| "split_on c (x # xs) =
     (if x = c then [] # split_on c xs
      else (case split_on c xs of
              [] \<Rightarrow> [[x]]
            | w # ws \<Rightarrow> (x # w) # ws))"

text \<open>\<^verbatim>\<open>s.strip()\<close>: Python 2 strips space, tab, newline, return, VT and FF.\<close>

definition is_space :: "char \<Rightarrow> bool" where
  "is_space c = (c \<in> set [CHR '' '', CHR 0x09, CHR 0x0A, CHR 0x0D, CHR 0x0B, CHR 0x0C])"

definition strip :: "string \<Rightarrow> string" where
  "strip s = rev (dropWhile is_space (rev (dropWhile is_space s)))"

text \<open>The first element of a list that is known to be non-empty; \<open>[]\<close> otherwise.\<close>

fun first_field :: "string list \<Rightarrow> string" where
  "first_field [] = []"
| "first_field (w # ws) = w"

text \<open>The newline character \<^verbatim>\<open>"\n"\<close>.\<close>

definition nl :: char where
  "nl = CHR 0x0A"

subsection \<open>Errors\<close>

text \<open>
  The source stops a run with \<^verbatim>\<open>error_out(message)\<close>; the constructors name the
  three places, after the names the specification gives them:
  \<^item> \<open>BuildOutputParseError\<close>: "Unable to locate 'Wrote: ' lines in rpmbuild output"
    (\<^verbatim>\<open>_find_wrote_in_rpmbuild_output\<close>) and "Error parsing rpmbuild output" (\<^verbatim>\<open>_rpm\<close>);
  \<^item> \<open>InsertionPointNotFoundError\<close>: "Unable to insert PatchX or %patchX lines in spec
    file" (\<^verbatim>\<open>_patch_upstream\<close>);
  \<^item> \<open>NoOptionError\<close>: what \<^verbatim>\<open>config.get\<close> raises for an option that is not set.
\<close>

datatype error = BuildOutputParseError | InsertionPointNotFoundError | NoOptionError

subsection \<open>Reading rpmbuild's output\<close>

text \<open>
  \<^verbatim>\<open>Builder._find_wrote_in_rpmbuild_output\<close>: the loop over
  \<^verbatim>\<open>output.split("\n")\<close> appends \<^verbatim>\<open>line[len(look_for):]\<close> for every line that starts
  with \<^verbatim>\<open>"Wrote: "\<close>; no path found is an error.
\<close>

definition look_for :: string where
  "look_for = ''Wrote: ''"

fun wrote_loop :: "string list \<Rightarrow> string list \<Rightarrow> string list" where
  "wrote_loop [] paths = paths"
| "wrote_loop (line # rest) paths =
     (if startswith line look_for
      then wrote_loop rest (paths @ [drop (length look_for) line])
      else wrote_loop rest paths)"

definition find_wrote_in_rpmbuild_output :: "string \<Rightarrow> error + string list" where
  "find_wrote_in_rpmbuild_output output =
     (let paths = wrote_loop (split_on nl output) []
      in if paths = [] then Inl BuildOutputParseError else Inr paths)"

text \<open>
  The part of \<^verbatim>\<open>Builder._rpm\<close> that reads the output of the full build: fewer than two
  files written is an error.
\<close>

definition rpm_files_written :: "string \<Rightarrow> error + string list" where
  "rpm_files_written output =
     (case find_wrote_in_rpmbuild_output output of
        Inl e \<Rightarrow> Inl e
      | Inr files_written \<Rightarrow>
          if length files_written < 2 then Inl BuildOutputParseError
          else Inr files_written)"

text \<open>The lines of a text that begin with \<^verbatim>\<open>"Wrote: "\<close>, without that prefix, in order.\<close>

definition wrote_suffixes :: "string \<Rightarrow> string list" where
  "wrote_suffixes output =
     map (drop 7) (filter (\<lambda>line. startswith line ''Wrote: '') (split_on nl output))"

subsection \<open>The display version\<close>

text \<open>
  \<^verbatim>\<open>Builder._get_display_version\<close>. \<^verbatim>\<open>get_latest_commit\<close> and \<^verbatim>\<open>get_commit_count\<close>
  are functions of \<^verbatim>\<open>tito.common\<close>, which run git; their results are parameters:
  \<open>latest_commit\<close> is the commit id and \<open>commit_count\<close> is the text that \<^verbatim>\<open>"%s"\<close>
  prints for the count.
\<close>

definition get_display_version :: "bool \<Rightarrow> string \<Rightarrow> string \<Rightarrow> string \<Rightarrow> string" where
  "get_display_version test build_version commit_count latest_commit =
     (if test then ''git-'' @ commit_count @ ''.'' @ take 7 latest_commit
      else first_field (split_on CHR ''-'' build_version))"

subsection \<open>Koji tags: whitelist and blacklist\<close>

text \<open>
  The configuration (a \<^verbatim>\<open>ConfigParser\<close>) maps a section and an option to a value.
  \<^verbatim>\<open>has_option\<close> is false for an option or a section that is not there.
\<close>

type_synonym config = "string \<times> string \<Rightarrow> string option"

definition has_option :: "config \<Rightarrow> string \<Rightarrow> string \<Rightarrow> bool" where
  "has_option cfg section opt = (cfg (section, opt) \<noteq> None)"

definition config_get :: "config \<Rightarrow> string \<Rightarrow> string \<Rightarrow> error + string" where
  "config_get cfg section opt =
     (case cfg (section, opt) of None \<Rightarrow> Inl NoOptionError | Some v \<Rightarrow> Inr v)"

text \<open>\<^verbatim>\<open>config.get(section, opt).strip().split(" ")\<close>, for an option that is set.\<close>

definition option_words :: "string \<Rightarrow> string list" where
  "option_words v = split_on CHR '' '' (strip v)"

text \<open>\<^verbatim>\<open>Builder.__is_whitelisted\<close> and \<^verbatim>\<open>Builder.__is_blacklisted\<close>.\<close>

definition is_whitelisted :: "config \<Rightarrow> string \<Rightarrow> string \<Rightarrow> bool" where
  "is_whitelisted cfg project_name koji_tag =
     (has_option cfg koji_tag ''whitelist'' \<and>
      (case cfg (koji_tag, ''whitelist'') of
         None \<Rightarrow> False
       | Some v \<Rightarrow> project_name \<in> set (option_words v)))"

definition is_blacklisted :: "config \<Rightarrow> string \<Rightarrow> string \<Rightarrow> bool" where
  "is_blacklisted cfg project_name koji_tag =
     (has_option cfg koji_tag ''blacklist'' \<and>
      (case cfg (koji_tag, ''blacklist'') of
         None \<Rightarrow> False
       | Some v \<Rightarrow> project_name \<in> set (option_words v)))"

text \<open>
  The two \<^verbatim>\<open>continue\<close> branches of the loop of \<^verbatim>\<open>Builder._koji_release\<close>: the
  package is submitted to the tag when neither is taken.
\<close>

definition koji_tag_allowed :: "config \<Rightarrow> string \<Rightarrow> string \<Rightarrow> bool" where
  "koji_tag_allowed cfg project_name koji_tag =
     (if has_option cfg koji_tag ''whitelist''
      then (if \<not> is_whitelisted cfg project_name koji_tag then False else True)
      else if is_blacklisted cfg project_name koji_tag then False
      else True)"

subsection \<open>Syncing files into a build system checkout\<close>

text \<open>\<^verbatim>\<open>PROTECTED_BUILD_SYS_FILES\<close>.\<close>

definition PROTECTED_BUILD_SYS_FILES :: "string list" where
  "PROTECTED_BUILD_SYS_FILES =
     [''branch'', ''CVS'', ''.cvsignore'', ''Makefile'', ''sources'', ''.git'', ''.gitignore'']"

text \<open>\<^verbatim>\<open>os.path.basename(p)\<close>: what follows the last slash.\<close>

definition basename :: "string \<Rightarrow> string" where
  "basename p = rev (takeWhile (\<lambda>c. c \<noteq> CHR ''/'') (rev p))"

text \<open>
  A directory is the list of its entries, name and content, in the order
  \<^verbatim>\<open>os.listdir\<close> gives them. \<open>exists_in d name\<close> is
  \<^verbatim>\<open>os.path.exists(os.path.join(dest_dir, name))\<close> and \<open>cp name content d\<close> is the
  directory after \<^verbatim>\<open>cp src dest_dir/name\<close> for a source file of that content: an entry
  of that name is overwritten, a new one is added.
\<close>

type_synonym directory = "(string \<times> string) list"

definition listdir :: "directory \<Rightarrow> string list" where
  "listdir d = map fst d"

definition exists_in :: "directory \<Rightarrow> string \<Rightarrow> bool" where
  "exists_in d name = (name \<in> set (listdir d))"

fun cp :: "string \<Rightarrow> string \<Rightarrow> directory \<Rightarrow> directory" where
  "cp name content [] = [(name, content)]"
| "cp name content ((n, c) # d) =
     (if n = name then (n, content) # d else (n, c) # cp name content d)"

text \<open>
  \<^verbatim>\<open>Builder._sync_files\<close>. \<open>files_to_copy\<close> gives each file to copy by its full path and
  its content. The first loop appends the base name to \<open>new_files\<close> in the branch the
  source takes when \<^verbatim>\<open>os.path.exists(dest_path)\<close> holds, and copies the file; nothing
  is ever appended to \<open>copied_files\<close>. The second loop lists the destination after the
  copies. The result is \<^verbatim>\<open>(new_files, copied_files, old_files)\<close> and the destination.
\<close>

fun sync_copy_loop ::
  "(string \<times> string) list \<Rightarrow> directory \<Rightarrow> string list \<Rightarrow> directory \<times> string list" where
  "sync_copy_loop [] dest new_files = (dest, new_files)"
| "sync_copy_loop ((copy_me, content) # rest) dest new_files =
     (let base_filename = basename copy_me;
          new_files' = (if exists_in dest base_filename
                        then new_files @ [base_filename] else new_files)
      in sync_copy_loop rest (cp base_filename content dest) new_files')"

definition sync_files ::
  "(string \<times> string) list \<Rightarrow> directory
     \<Rightarrow> (string list \<times> string list \<times> string list) \<times> directory" where
  "sync_files files_to_copy dest_dir =
     (let filenames_to_copy = map (\<lambda>f. basename (fst f)) files_to_copy;
          copied_files = [];
          (dest', new_files) = sync_copy_loop files_to_copy dest_dir [];
          old_files = filter (\<lambda>filename. filename \<notin> set PROTECTED_BUILD_SYS_FILES \<and>
                                          filename \<notin> set filenames_to_copy) (listdir dest')
      in ((new_files, copied_files, old_files), dest'))"

subsection \<open>Inserting a generated patch into the spec file\<close>

text \<open>
  The regular expressions \<^verbatim>\<open>^Patch(\d+):\<close> and \<^verbatim>\<open>^Source\d+:\<close>, matched at the start
  of a line: the keyword, one or more decimal digits, a colon. \<open>patch_pattern\<close> gives
  \<^verbatim>\<open>int(match.group(1))\<close> when the line matches.
\<close>

definition is_digit :: "char \<Rightarrow> bool" where
  "is_digit c = (c \<in> set ''0123456789'')"

definition int_of_digits :: "string \<Rightarrow> nat" where
  "int_of_digits ds = foldl (\<lambda>n c. 10 * n + (of_char c - 48)) 0 ds"

definition keyword_number :: "string \<Rightarrow> string \<Rightarrow> nat option" where
  "keyword_number keyword line =
     (if startswith line keyword
      then (let rest = drop (length keyword) line;
                ds = takeWhile is_digit rest
            in if ds \<noteq> [] \<and> startswith (dropWhile is_digit rest) '':''
               then Some (int_of_digits ds) else None)
      else None)"

definition patch_pattern :: "string \<Rightarrow> nat option" where
  "patch_pattern line = keyword_number ''Patch'' line"

definition source_pattern :: "string \<Rightarrow> bool" where
  "source_pattern line = (keyword_number ''Source'' line \<noteq> None)"

text \<open>
  \<^verbatim>\<open>UpstreamBuilder._patch_upstream\<close>: the four counters of the loop over the lines of
  the spec file, the loop body, and the check after the loop.
\<close>

record scan =
  patch_number :: nat
  patch_insert_index :: nat
  patch_apply_index :: nat
  array_index :: nat

definition scan_init :: scan where
  "scan_init = \<lparr>patch_number = 0, patch_insert_index = 0, patch_apply_index = 0,
                 array_index = 0\<rparr>"

definition scan_line :: "scan \<Rightarrow> string \<Rightarrow> scan" where
  "scan_line s line =
     (let s1 = (if source_pattern line
                then s\<lparr>patch_insert_index := array_index s + 1\<rparr> else s);
          s2 = (case patch_pattern line of
                  Some n \<Rightarrow> s1\<lparr>patch_insert_index := array_index s + 1,
                                patch_number := n + 1\<rparr>
                | None \<Rightarrow> s1);
          s3 = (if startswith line ''%prep''
                then s2\<lparr>patch_apply_index := array_index s + 2\<rparr>
                else if startswith line ''%setup''
                then s2\<lparr>patch_apply_index := array_index s + 2\<rparr>
                else s2)
      in s3\<lparr>array_index := array_index s + 1\<rparr>)"

definition scan_lines :: "string list \<Rightarrow> scan" where
  "scan_lines lines = foldl scan_line scan_init lines"

definition patch_upstream_points ::
  "string list \<Rightarrow> error + (nat \<times> nat \<times> nat \<times> string list)" where
  "patch_upstream_points lines =
     (let s = scan_lines lines
      in if patch_insert_index s = 0 \<or> patch_apply_index s = 0
         then Inl InsertionPointNotFoundError
         else Inr (patch_number s, patch_insert_index s, patch_apply_index s, lines))"

text \<open>
  The two kinds of line the loop looks for: a line that sets \<open>patch_insert_index\<close> (a
  \<^verbatim>\<open>SourceN:\<close> or \<^verbatim>\<open>PatchN:\<close> directive) and a line that sets
  \<open>patch_apply_index\<close> (\<^verbatim>\<open>%prep\<close> or \<^verbatim>\<open>%setup\<close>).
\<close>

definition is_source_or_patch :: "string \<Rightarrow> bool" where
  "is_source_or_patch line =
     (source_pattern line \<or> (case patch_pattern line of None \<Rightarrow> False | Some n \<Rightarrow> True))"

definition is_prep_or_setup :: "string \<Rightarrow> bool" where
  "is_prep_or_setup line = (startswith line ''%prep'' \<or> startswith line ''%setup'')"

text \<open>\<^verbatim>\<open>lines.insert(i, x)\<close> for \<open>i \<ge> 0\<close>: past the end it appends.\<close>

definition list_insert :: "nat \<Rightarrow> 'a \<Rightarrow> 'a list \<Rightarrow> 'a list" where
  "list_insert i x xs = take i xs @ x # drop i xs"

text \<open>\<^verbatim>\<open>"%s" % n\<close> for a number \<open>n \<ge> 0\<close>: its decimal digits.\<close>

definition digit_char :: "nat \<Rightarrow> char" where
  "digit_char d = ''0123456789'' ! d"

fun str_nat :: "nat \<Rightarrow> string" where
  "str_nat n = (if n < 10 then [digit_char n] else str_nat (n div 10) @ [digit_char (n mod 10)])"

text \<open>
  The two \<^verbatim>\<open>lines.insert\<close> calls of \<^verbatim>\<open>UpstreamBuilder.patch_upstream\<close>, in the order
  of the source, and the method's work on the lines of the spec file.
\<close>

definition patch_line :: "nat \<Rightarrow> string \<Rightarrow> string" where
  "patch_line n patch_filename = ''Patch'' @ str_nat n @ '': '' @ patch_filename @ [nl]"

definition apply_line :: "nat \<Rightarrow> string" where
  "apply_line n = ''%patch'' @ str_nat n @ '' -p1'' @ [nl]"

definition insert_patch_lines ::
  "string list \<Rightarrow> nat \<Rightarrow> nat \<Rightarrow> nat \<Rightarrow> string \<Rightarrow> string list" where
  "insert_patch_lines lines n insert_index apply_index patch_filename =
     list_insert apply_index (apply_line n)
       (list_insert insert_index (patch_line n patch_filename) lines)"

definition patch_upstream :: "string \<Rightarrow> string list \<Rightarrow> error + string list" where
  "patch_upstream patch_filename spec_lines =
     (case patch_upstream_points spec_lines of
        Inl e \<Rightarrow> Inl e
      | Inr (n, insert_index, apply_index, lines) \<Rightarrow>
          Inr (insert_patch_lines lines n insert_index apply_index patch_filename))"

text \<open>
  The specification's \<^verbatim>\<open>applyPatchInsertion\<close>, from its words: the same two lines,
  inserted at the larger index first.
\<close>

definition applyPatchInsertion_larger_first ::
  "string list \<Rightarrow> nat \<Rightarrow> nat \<Rightarrow> nat \<Rightarrow> string \<Rightarrow> string list" where
  "applyPatchInsertion_larger_first lines n insert_index apply_index patch_filename =
     (if insert_index \<le> apply_index
      then list_insert insert_index (patch_line n patch_filename)
             (list_insert apply_index (apply_line n) lines)
      else list_insert apply_index (apply_line n)
             (list_insert insert_index (patch_line n patch_filename) lines))"

text \<open>
  A spec file with the directives \<^verbatim>\<open>Source0\<close> and \<^verbatim>\<open>Patch3\<close> before its
  \<^verbatim>\<open>%prep\<close> section, as \<^verbatim>\<open>readlines()\<close> gives it, and one with the two directives in
  the other order.
\<close>

definition spec_example :: "string list" where
  "spec_example =
     [''Name: pkg'' @ [nl], ''Source0: pkg.tar.gz'' @ [nl], ''Patch3: fix.patch'' @ [nl],
      ''%description'' @ [nl], ''%prep'' @ [nl], ''%setup -q'' @ [nl], ''%build'' @ [nl]]"

definition spec_example_swapped :: "string list" where
  "spec_example_swapped =
     [''Patch3: fix.patch'' @ [nl], ''Source0: pkg.tar.gz'' @ [nl], ''%prep'' @ [nl],
      ''%setup -q'' @ [nl]]"

text \<open>
  The numbers of the \<^verbatim>\<open>PatchN:\<close> lines of a spec file, in the order of the lines, and
  two more spec files: one whose \<^verbatim>\<open>Patch3\<close> directive stands before a \<^verbatim>\<open>Patch1\<close>
  directive, and one whose \<^verbatim>\<open>%prep\<close> line stands before its only directive.
\<close>

definition patch_numbers_seen :: "string list \<Rightarrow> nat list" where
  "patch_numbers_seen lines = List.map_filter patch_pattern lines"

definition spec_example_unordered :: "string list" where
  "spec_example_unordered =
     [''Source0: pkg.tar.gz'' @ [nl], ''Patch3: fix.patch'' @ [nl],
      ''Patch1: old.patch'' @ [nl], ''%prep'' @ [nl], ''%setup -q'' @ [nl]]"

definition spec_example_prep_first :: "string list" where
  "spec_example_prep_first = [''%prep'' @ [nl], ''Source0: pkg.tar.gz'' @ [nl]]"

subsection \<open>The builder object and its stages\<close>

text \<open>
  The class of the object decides which \<^verbatim>\<open>tgz\<close>, \<^verbatim>\<open>_setup_test_specfile\<close> and
  \<^verbatim>\<open>_get_rpmbuild_dir_options\<close> run: those of \<^verbatim>\<open>Builder\<close> or the overrides of
  \<^verbatim>\<open>NoTgzBuilder\<close>.
\<close>

datatype variant = Builder | NoTgzBuilder

text \<open>
  What a method does to the world outside the object is recorded in the order it
  happens. Each constructor names the call, and carries its command line or arguments:
  \<^item> \<open>Mkdir\<close>: \<^verbatim>\<open>commands.getoutput("mkdir -p ...")\<close> in \<^verbatim>\<open>_create_build_dirs\<close>;
  \<^item> \<open>Create_tgz\<close>: \<^verbatim>\<open>create_tgz(...)\<close> in \<^verbatim>\<open>_setup_sources\<close>, the export of the
    project at the commit;
  \<^item> \<open>Untar\<close>: \<^verbatim>\<open>run_command("cd ... && tar xzf ...")\<close> in \<^verbatim>\<open>_setup_sources\<close>;
  \<^item> \<open>Copy_tgz\<close>: \<^verbatim>\<open>run_command("cp ...")\<close> in \<^verbatim>\<open>Builder.tgz\<close>;
  \<^item> \<open>Test_setup_specfile\<close>: \<^verbatim>\<open>run_command(cmd)\<close> in \<^verbatim>\<open>_setup_test_specfile\<close>;
  \<^item> \<open>Rpmbuild\<close>: \<^verbatim>\<open>run_command(cmd)\<close> in \<^verbatim>\<open>_srpm\<close>;
  \<^item> \<open>Submit\<close>: \<^verbatim>\<open>run_command(cmd)\<close> in \<^verbatim>\<open>_submit_build\<close>.
\<close>

datatype effect =
    Mkdir string
  | Create_tgz "string list"
  | Untar string
  | Copy_tgz string
  | Test_setup_specfile string
  | Rpmbuild string
  | Submit string

text \<open>
  The world the object runs in: what \<^verbatim>\<open>run_command\<close> returns for a command line,
  and the results of \<^verbatim>\<open>find_spec_file\<close>, \<^verbatim>\<open>get_script_path\<close> (both of
  \<^verbatim>\<open>tito.common\<close>) and \<^verbatim>\<open>os.listdir\<close>. The external commands are taken to succeed:
  a failing one ends the run inside \<^verbatim>\<open>run_command\<close>.
\<close>

record env =
  run_command :: "string \<Rightarrow> string"
  find_spec_file :: "string \<Rightarrow> string"
  get_script_path :: "string \<Rightarrow> string"
  os_listdir :: "string \<Rightarrow> string list"

text \<open>The fields of the object that the stages read and write.\<close>

record builder =
  kind :: variant
  project_name :: string
  dist :: "string option"
  test :: bool
  config :: config
  user_config :: "string \<Rightarrow> string option"
  rpmbuild_options :: string
  scratch :: bool
  only_tags :: "string list option"
  dry_run :: bool
  git_root :: string
  rel_eng_dir :: string
  relative_project_dir :: string
  rpmbuild_basedir :: string
  display_version :: string
  commit_count :: string
  git_commit_id :: string
  tgz_filename :: string
  tgz_dir :: string
  rpmbuild_dir :: string
  rpmbuild_sourcedir :: string
  rpmbuild_builddir :: string
  rpmbuild_gitcopy :: string
  ran_tgz :: bool
  ran_setup_test_specfile :: bool
  spec_file_name :: "string option"
  spec_file :: "string option"
  sources :: "string list"
  srpm_location :: "string option"
  artifacts :: "string list"
  effects :: "effect list"

text \<open>
  Python values in a condition and under \<^verbatim>\<open>"%s"\<close>: \<^verbatim>\<open>None\<close> and the empty string
  (the empty list) are false, and \<^verbatim>\<open>None\<close> prints as \<^verbatim>\<open>None\<close>.
\<close>

definition truthy :: "'a list option \<Rightarrow> bool" where
  "truthy v = (case v of None \<Rightarrow> False | Some x \<Rightarrow> x \<noteq> [])"

definition str_opt :: "string option \<Rightarrow> string" where
  "str_opt v = (case v of None \<Rightarrow> ''None'' | Some s \<Rightarrow> s)"

text \<open>\<^verbatim>\<open>os.path.join(a, b)\<close>.\<close>

definition path_join :: "string \<Rightarrow> string \<Rightarrow> string" where
  "path_join a b =
     (if startswith b ''/'' then b
      else if a = [] \<or> endswith a ''/'' then a @ b
      else a @ ''/'' @ b)"

text \<open>The quote characters of the command lines.\<close>

definition dq :: char where
  "dq = CHR 0x22"

definition sq :: char where
  "sq = CHR 0x27"

definition DEFAULT_KOJI_OPTS :: string where
  "DEFAULT_KOJI_OPTS = ''build --nowait''"

text \<open>\<^verbatim>\<open>Builder._create_build_dirs\<close>.\<close>

definition create_build_dirs :: "builder \<Rightarrow> builder" where
  "create_build_dirs b =
     b\<lparr>effects := effects b @
        [Mkdir (''mkdir -p '' @ rpmbuild_basedir b @ '' '' @ rpmbuild_dir b @ '' '' @
                rpmbuild_sourcedir b @ '' '' @ rpmbuild_builddir b)]\<rparr>"

text \<open>\<^verbatim>\<open>Builder._setup_sources\<close>.\<close>

definition setup_sources :: "env \<Rightarrow> builder \<Rightarrow> builder" where
  "setup_sources e b =
     (let b1 = create_build_dirs b;
          b2 = b1\<lparr>effects := effects b1 @
                 [Create_tgz [git_root b1, tgz_dir b1, git_commit_id b1,
                    relative_project_dir b1, rel_eng_dir b1,
                    path_join (rpmbuild_sourcedir b1) (tgz_filename b1)]]\<rparr>;
          b3 = b2\<lparr>effects := effects b2 @
                 [Untar (''cd '' @ rpmbuild_sourcedir b2 @ ''/ && tar xzf '' @
                         tgz_filename b2)]\<rparr>;
          name = find_spec_file e (rpmbuild_gitcopy b3)
      in b3\<lparr>spec_file_name := Some name,
            spec_file := Some (path_join (rpmbuild_gitcopy b3) name)\<rparr>)"

text \<open>
  \<^verbatim>\<open>Builder.tgz\<close> and \<^verbatim>\<open>NoTgzBuilder.tgz\<close>. The path \<^verbatim>\<open>Builder.tgz\<close> returns is not
  used by the callers modelled here, so the result is the object.
\<close>

definition source_suffixes :: "string list" where
  "source_suffixes = [''.tar.gz'', ''.tar'', ''.zip'', ''.jar'', ''.gem'']"

definition tgz :: "env \<Rightarrow> builder \<Rightarrow> builder" where
  "tgz e b =
     (case kind b of
        Builder \<Rightarrow>
          (let b1 = setup_sources e b;
               b2 = b1\<lparr>effects := effects b1 @
                      [Copy_tgz (''cp '' @ rpmbuild_sourcedir b1 @ ''/'' @ tgz_filename b1 @
                                 '' '' @ rpmbuild_basedir b1 @ ''/'')]\<rparr>;
               b3 = b2\<lparr>ran_tgz := True\<rparr>;
               full_path = path_join (rpmbuild_basedir b3) (tgz_filename b3)
           in b3\<lparr>sources := sources b3 @ [full_path],
                 artifacts := artifacts b3 @ [full_path]\<rparr>)
      | NoTgzBuilder \<Rightarrow>
          (let b1 = setup_sources e b;
               b2 = b1\<lparr>ran_tgz := True\<rparr>
           in b2\<lparr>sources := sources b2 @
                   concat (map (\<lambda>filename.
                             map (\<lambda>suffix. path_join (rpmbuild_gitcopy b2) filename)
                                 (filter (endswith filename) source_suffixes))
                           (os_listdir e (rpmbuild_gitcopy b2)))\<rparr>))"

text \<open>\<^verbatim>\<open>Builder._setup_test_specfile\<close> and \<^verbatim>\<open>NoTgzBuilder._setup_test_specfile\<close>.\<close>

definition setup_test_specfile :: "env \<Rightarrow> builder \<Rightarrow> builder" where
  "setup_test_specfile e b =
     (case kind b of
        Builder \<Rightarrow>
          (if test b \<and> \<not> ran_setup_test_specfile b
           then (let setup_specfile_script = get_script_path e ''test-setup-specfile.pl'';
                     cmd = setup_specfile_script @ '' '' @ str_opt (spec_file b) @ '' '' @
                           take 7 (git_commit_id b) @ '' '' @ commit_count b @ '' '' @
                           project_name b @ ''-'' @ display_version b @ '' '' @
                           tgz_filename b;
                     b1 = b\<lparr>effects := effects b @ [Test_setup_specfile cmd]\<rparr>
                 in b1\<lparr>ran_setup_test_specfile := True\<rparr>)
           else b)
      | NoTgzBuilder \<Rightarrow>
          (if test b
           then (let script = ''test-setup-specfile.pl'';
                     cmd = script @ '' '' @ str_opt (spec_file b) @ '' '' @
                           take 7 (git_commit_id b) @ '' '' @ commit_count b
                 in b\<lparr>effects := effects b @ [Test_setup_specfile cmd]\<rparr>)
           else b))"

text \<open>\<^verbatim>\<open>Builder._get_rpmbuild_dir_options\<close> and the override of \<^verbatim>\<open>NoTgzBuilder\<close>.\<close>

definition rpmbuild_dir_options_of :: "string \<Rightarrow> string \<Rightarrow> string \<Rightarrow> string" where
  "rpmbuild_dir_options_of sourcedir builddir basedir =
     ''--define '' @ [dq] @ ''_sourcedir '' @ sourcedir @ [dq] @
     '' --define '' @ [dq] @ ''_builddir '' @ builddir @ [dq] @
     '' --define '' @ [dq] @ ''_srcrpmdir '' @ basedir @ [dq] @
     '' --define '' @ [dq] @ ''_rpmdir '' @ basedir @ [dq] @ '' ''"

definition get_rpmbuild_dir_options :: "builder \<Rightarrow> string" where
  "get_rpmbuild_dir_options b =
     (case kind b of
        Builder \<Rightarrow>
          rpmbuild_dir_options_of (rpmbuild_sourcedir b) (rpmbuild_builddir b)
            (rpmbuild_basedir b)
      | NoTgzBuilder \<Rightarrow>
          rpmbuild_dir_options_of (rpmbuild_gitcopy b) (rpmbuild_builddir b)
            (rpmbuild_basedir b))"

text \<open>
  \<^verbatim>\<open>Builder._srpm\<close>. \<open>define_dist_of\<close> is the choice of the \<^verbatim>\<open>--define 'dist ...'\<close>
  option: the object's own \<open>dist\<close> (the caller's option) when it is set, else the
  \<open>dist\<close> argument when it is set, else nothing. \<open>srpm_cmd\<close> is the command line.
\<close>

definition define_dist_of :: "string option \<Rightarrow> string option \<Rightarrow> string" where
  "define_dist_of self_dist dist_arg =
     (if truthy self_dist then ''--define '' @ [sq] @ ''dist '' @ str_opt self_dist @ [sq]
      else if truthy dist_arg then ''--define '' @ [sq] @ ''dist '' @ str_opt dist_arg @ [sq]
      else [])"

definition srpm_cmd :: "builder \<Rightarrow> string \<Rightarrow> string" where
  "srpm_cmd b define_dist =
     ''LC_ALL=C rpmbuild --define '' @ [dq] @ ''_source_filedigest_algorithm md5'' @ [dq] @
     ''  --define '' @ [dq] @ ''_binary_filedigest_algorithm md5'' @ [dq] @ '' '' @
     rpmbuild_options b @ '' '' @ get_rpmbuild_dir_options b @ '' '' @ define_dist @
     '' --nodeps -bs '' @ str_opt (spec_file b)"

definition srpm :: "env \<Rightarrow> string option \<Rightarrow> builder \<Rightarrow> error + builder" where
  "srpm e dist_arg b =
     (let b1 = create_build_dirs b;
          b2 = (if \<not> ran_tgz b1 then tgz e b1 else b1);
          b3 = (if test b2 then setup_test_specfile e b2 else b2);
          define_dist = define_dist_of (dist b3) dist_arg;
          cmd = srpm_cmd b3 define_dist;
          b4 = b3\<lparr>effects := effects b3 @ [Rpmbuild cmd]\<rparr>;
          output = run_command e cmd
      in case find_wrote_in_rpmbuild_output output of
           Inl err \<Rightarrow> Inl err
         | Inr paths \<Rightarrow>
             (let b5 = b4\<lparr>srpm_location := Some (first_field paths)\<rparr>
              in Inr (b5\<lparr>artifacts := artifacts b5 @ [first_field paths]\<rparr>)))"

text \<open>\<^verbatim>\<open>Builder._submit_build\<close>: with \<^verbatim>\<open>--dry-run\<close> the command is only printed.\<close>

definition submit_cmd :: "string \<Rightarrow> string \<Rightarrow> string \<Rightarrow> string option \<Rightarrow> string" where
  "submit_cmd executable koji_opts tag location =
     executable @ '' '' @ koji_opts @ '' '' @ tag @ '' '' @ str_opt location"

definition submit_build :: "string \<Rightarrow> string \<Rightarrow> string \<Rightarrow> builder \<Rightarrow> builder" where
  "submit_build executable koji_opts tag b =
     (let cmd = submit_cmd executable koji_opts tag (srpm_location b)
      in if dry_run b then b else b\<lparr>effects := effects b @ [Submit cmd]\<rparr>)"

text \<open>
  \<^verbatim>\<open>Builder._koji_release\<close>: the loop over the tags, and the method. A tag is left out
  by the first \<^verbatim>\<open>continue\<close> when \<^verbatim>\<open>only_tags\<close> is set and does not hold it, and by the
  other two as \<open>koji_tag_allowed\<close> says.
\<close>

fun koji_loop :: "env \<Rightarrow> string \<Rightarrow> string list \<Rightarrow> builder \<Rightarrow> error + builder" where
  "koji_loop e koji_opts [] b = Inr b"
| "koji_loop e koji_opts (koji_tag # rest) b =
     (if truthy (only_tags b) \<and> koji_tag \<notin> set (case only_tags b of None \<Rightarrow> [] | Some ts \<Rightarrow> ts)
      then koji_loop e koji_opts rest b
      else (case config_get (config b) koji_tag ''disttag'' of
              Inl err \<Rightarrow> Inl err
            | Inr disttag \<Rightarrow>
                if \<not> koji_tag_allowed (config b) (project_name b) koji_tag
                then koji_loop e koji_opts rest b
                else (case srpm e (Some disttag) b of
                        Inl err \<Rightarrow> Inl err
                      | Inr b1 \<Rightarrow>
                          koji_loop e koji_opts rest
                            (submit_build ''koji'' koji_opts koji_tag b1))))"

definition koji_release :: "env \<Rightarrow> builder \<Rightarrow> error + builder" where
  "koji_release e b =
     (case config_get (config b) ''koji'' ''autobuild_tags'' of
        Inl err \<Rightarrow> Inl err
      | Inr autobuild_tags \<Rightarrow>
          (let koji_tags = split_on CHR '' '' (strip autobuild_tags);
               koji_opts = (case user_config b ''KOJI_OPTIONS'' of
                              Some v \<Rightarrow> v
                            | None \<Rightarrow> DEFAULT_KOJI_OPTS);
               koji_opts' = (if scratch b then koji_opts @ '' '' @ ''--scratch''
                             else koji_opts)
           in koji_loop e koji_opts' koji_tags b))"

subsection \<open>Reading the record of a run\<close>

text \<open>
  The exports of the project (\<open>Create_tgz\<close>), the runs of the test spec file helper, and
  the rpmbuild runs and submissions, as they stand in the record of the effects.
\<close>

fun is_create_tgz :: "effect \<Rightarrow> bool" where
  "is_create_tgz (Create_tgz args) = True"
| "is_create_tgz x = False"

fun is_test_setup :: "effect \<Rightarrow> bool" where
  "is_test_setup (Test_setup_specfile cmd) = True"
| "is_test_setup x = False"

fun is_build_or_submit :: "effect \<Rightarrow> bool" where
  "is_build_or_submit (Rpmbuild cmd) = True"
| "is_build_or_submit (Submit cmd) = True"
| "is_build_or_submit x = False"

definition export_count :: "builder \<Rightarrow> nat" where
  "export_count b = length (filter is_create_tgz (effects b))"

definition helper_runs :: "builder \<Rightarrow> nat" where
  "helper_runs b = length (filter is_test_setup (effects b))"

definition build_trace :: "builder \<Rightarrow> effect list" where
  "build_trace b = filter is_build_or_submit (effects b)"

text \<open>
  \<open>same_settings b b'\<close>: the object \<open>b'\<close> is \<open>b\<close> but for the fields that the stages
  write.
\<close>

definition same_settings :: "builder \<Rightarrow> builder \<Rightarrow> bool" where
  "same_settings b b' =
     (kind b' = kind b \<and> project_name b' = project_name b \<and> dist b' = dist b \<and>
      test b' = test b \<and> config b' = config b \<and> user_config b' = user_config b \<and>
      rpmbuild_options b' = rpmbuild_options b \<and> scratch b' = scratch b \<and>
      only_tags b' = only_tags b \<and> dry_run b' = dry_run b \<and> git_root b' = git_root b \<and>
      rel_eng_dir b' = rel_eng_dir b \<and> relative_project_dir b' = relative_project_dir b \<and>
      rpmbuild_basedir b' = rpmbuild_basedir b \<and> display_version b' = display_version b \<and>
      commit_count b' = commit_count b \<and> git_commit_id b' = git_commit_id b \<and>
      tgz_filename b' = tgz_filename b \<and> tgz_dir b' = tgz_dir b \<and>
      rpmbuild_dir b' = rpmbuild_dir b \<and> rpmbuild_sourcedir b' = rpmbuild_sourcedir b \<and>
      rpmbuild_builddir b' = rpmbuild_builddir b \<and> rpmbuild_gitcopy b' = rpmbuild_gitcopy b)"

text \<open>
  What \<^verbatim>\<open>_koji_release\<close> computes before and in its loop, named: the Koji options, the
  tags that reach \<^verbatim>\<open>_srpm\<close>, the spec file that \<^verbatim>\<open>_srpm\<close> builds from (the one of the
  object when the sources are there, the one \<^verbatim>\<open>_setup_sources\<close> finds otherwise), the
  rpmbuild command line for a tag and the path of the source package that rpmbuild
  reports for it.
\<close>

definition koji_opts_of :: "builder \<Rightarrow> string" where
  "koji_opts_of b =
     (let koji_opts = (case user_config b ''KOJI_OPTIONS'' of
                         Some v \<Rightarrow> v
                       | None \<Rightarrow> DEFAULT_KOJI_OPTS)
      in if scratch b then koji_opts @ '' --scratch'' else koji_opts)"

definition koji_tag_selected :: "builder \<Rightarrow> string \<Rightarrow> bool" where
  "koji_tag_selected b koji_tag =
     ((case only_tags b of
         None \<Rightarrow> True
       | Some ts \<Rightarrow> if ts = [] then True else koji_tag \<in> set ts)
      \<and> koji_tag_allowed (config b) (project_name b) koji_tag)"

definition koji_tags_built :: "builder \<Rightarrow> string list" where
  "koji_tags_built b =
     (case config b (''koji'', ''autobuild_tags'') of
        None \<Rightarrow> []
      | Some autobuild_tags \<Rightarrow>
          filter (koji_tag_selected b) (split_on CHR '' '' (strip autobuild_tags)))"

definition spec_file_ready :: "env \<Rightarrow> builder \<Rightarrow> string option" where
  "spec_file_ready e b =
     (if ran_tgz b then spec_file b
      else Some (path_join (rpmbuild_gitcopy b) (find_spec_file e (rpmbuild_gitcopy b))))"

definition koji_srpm_cmd :: "env \<Rightarrow> builder \<Rightarrow> string \<Rightarrow> string" where
  "koji_srpm_cmd e b koji_tag =
     srpm_cmd (b\<lparr>spec_file := spec_file_ready e b\<rparr>)
       (define_dist_of (dist b) (config b (koji_tag, ''disttag'')))"

definition koji_srpm_path :: "env \<Rightarrow> builder \<Rightarrow> string \<Rightarrow> string" where
  "koji_srpm_path e b koji_tag =
     first_field (wrote_suffixes (run_command e (koji_srpm_cmd e b koji_tag)))"

definition koji_tag_effects :: "env \<Rightarrow> builder \<Rightarrow> string \<Rightarrow> effect list" where
  "koji_tag_effects e b koji_tag =
     Rpmbuild (koji_srpm_cmd e b koji_tag) #
     (if dry_run b then []
      else [Submit (submit_cmd ''koji'' (koji_opts_of b) koji_tag
                      (Some (koji_srpm_path e b koji_tag)))])"

subsection \<open>An example run\<close>

text \<open>
  A project \<^verbatim>\<open>pkg\<close> at version 1.0 that is built for the Koji tags \<^verbatim>\<open>f12\<close> and
  \<^verbatim>\<open>el5\<close>, whose dist tags are \<^verbatim>\<open>.fc12\<close> and \<^verbatim>\<open>.el5\<close>, in a world where rpmbuild
  writes the source package with the dist tag it was given.
\<close>

definition example_config :: config where
  "example_config =
     Map.empty((''koji'', ''autobuild_tags'') \<mapsto> ''f12 el5'',
               (''f12'', ''disttag'') \<mapsto> ''.fc12'',
               (''el5'', ''disttag'') \<mapsto> ''.el5'')"

text \<open>
  The dist tag in an rpmbuild command line: what stands between \<^verbatim>\<open>'dist \<close> and the
  next quote, and nothing when the command line has no such option.
\<close>

definition dist_in :: "string \<Rightarrow> string" where
  "dist_in cmd = takeWhile (\<lambda>c. c \<noteq> sq) (drop 6 (dropWhile (\<lambda>c. c \<noteq> sq) cmd))"

definition example_env :: env where
  "example_env =
     \<lparr>run_command = (\<lambda>cmd. ''Wrote: /tmp/tito/pkg-1.0-1'' @ dist_in cmd @ ''.src.rpm'' @ [nl]),
      find_spec_file = (\<lambda>in_dir. ''pkg.spec''),
      get_script_path = (\<lambda>script. ''/usr/bin/'' @ script),
      os_listdir = (\<lambda>dir. [''pkg.spec'', ''pkg-1.0.tar.gz''])\<rparr>"

definition example_builder :: builder where
  "example_builder =
     \<lparr>kind = Builder, project_name = ''pkg'', dist = None, test = False,
      config = example_config, user_config = Map.empty, rpmbuild_options = [],
      scratch = False, only_tags = None, dry_run = False,
      git_root = ''/git'', rel_eng_dir = ''/git/rel-eng'', relative_project_dir = ''pkg/'',
      rpmbuild_basedir = ''/tmp/tito'', display_version = ''1.0'', commit_count = ''2'',
      git_commit_id = ''0123456789abcdef'', tgz_filename = ''pkg-1.0.tar.gz'',
      tgz_dir = ''pkg-1.0'', rpmbuild_dir = ''/tmp/tito/rpmbuild-pkg-0123456789abcdef'',
      rpmbuild_sourcedir = ''/tmp/tito/rpmbuild-pkg-0123456789abcdef/SOURCES'',
      rpmbuild_builddir = ''/tmp/tito/rpmbuild-pkg-0123456789abcdef/BUILD'',
      rpmbuild_gitcopy = ''/tmp/tito/rpmbuild-pkg-0123456789abcdef/SOURCES/pkg-1.0'',
      ran_tgz = False, ran_setup_test_specfile = False, spec_file_name = None,
      spec_file = None, sources = [], srpm_location = None, artifacts = [],
      effects = []\<rparr>"

section \<open>Properties\<close>

subsection \<open>Reading rpmbuild's output\<close>

lemma wrote_loop_eq:
  "wrote_loop ls acc = acc @ map (drop 7) (filter (\<lambda>l. startswith l ''Wrote: '') ls)"
  by (induction ls arbitrary: acc) (simp_all add: look_for_def eval_nat_numeral)

lemma find_wrote_eq:
  "find_wrote_in_rpmbuild_output output =
     (if wrote_suffixes output = [] then Inl BuildOutputParseError
      else Inr (wrote_suffixes output))"
  by (simp add: find_wrote_in_rpmbuild_output_def wrote_suffixes_def wrote_loop_eq Let_def)

text \<open>
  Claim C8. \<^verbatim>\<open>_find_wrote_in_rpmbuild_output\<close> returns what follows \<^verbatim>\<open>"Wrote: "\<close> on
  every line of the output that begins with it, in the order of the lines, and fails
  with \<open>BuildOutputParseError\<close> when there is no such line; the output
  \<^verbatim>\<open>"Wrote: /a/b.src.rpm\nWrote: /a/b.rpm\n"\<close> gives the two paths; and the full build of
  \<^verbatim>\<open>_rpm\<close> fails with \<open>BuildOutputParseError\<close> as well when fewer than two such lines
  are found.
\<close>

theorem find_wrote_spec:
  "find_wrote_in_rpmbuild_output output =
     (if wrote_suffixes output = [] then Inl BuildOutputParseError
      else Inr (wrote_suffixes output))
   \<and> find_wrote_in_rpmbuild_output
       (''Wrote: /a/b.src.rpm'' @ [nl] @ ''Wrote: /a/b.rpm'' @ [nl]) =
       Inr [''/a/b.src.rpm'', ''/a/b.rpm'']
   \<and> rpm_files_written output =
       (if length (wrote_suffixes output) < 2 then Inl BuildOutputParseError
        else Inr (wrote_suffixes output))"
proof (intro conjI)
  show "find_wrote_in_rpmbuild_output output =
     (if wrote_suffixes output = [] then Inl BuildOutputParseError
      else Inr (wrote_suffixes output))"
    by (rule find_wrote_eq)
  show "find_wrote_in_rpmbuild_output
       (''Wrote: /a/b.src.rpm'' @ [nl] @ ''Wrote: /a/b.rpm'' @ [nl]) =
       Inr [''/a/b.src.rpm'', ''/a/b.rpm'']"
    by (simp add: find_wrote_in_rpmbuild_output_def nl_def look_for_def startswith_def)
  show "rpm_files_written output =
       (if length (wrote_suffixes output) < 2 then Inl BuildOutputParseError
        else Inr (wrote_suffixes output))"
    by (auto simp add: rpm_files_written_def find_wrote_eq)
qed

subsection \<open>The display version\<close>

lemma split_on_nonempty: "split_on c s \<noteq> []"
  by (induction s) (auto split: list.splits)

lemma first_field_split_on: "first_field (split_on c s) = takeWhile (\<lambda>x. x \<noteq> c) s"
  by (induction s) (auto split: list.splits simp: split_on_nonempty)

text \<open>
  Claim C3. Without \<^verbatim>\<open>--test\<close> the display version is the part of the requested
  version before its first \<^verbatim>\<open>-\<close> (all of it when it has none); with \<^verbatim>\<open>--test\<close> it is
  \<^verbatim>\<open>git-<commit_count>.<first 7 characters of the commit id>\<close>; and the display version
  of a test build differs from the display version of every build that is not a test
  build, whatever version that build was requested for: the one holds a \<^verbatim>\<open>-\<close>, the
  other none.
\<close>

theorem display_version_spec:
  "get_display_version False v n c = takeWhile (\<lambda>x. x \<noteq> CHR ''-'') v
   \<and> get_display_version True v n c = ''git-'' @ n @ ''.'' @ take 7 c
   \<and> get_display_version True v n c \<noteq> get_display_version False v' n' c'"
proof (intro conjI)
  show "get_display_version False v n c = takeWhile (\<lambda>x. x \<noteq> CHR ''-'') v"
    by (simp add: get_display_version_def first_field_split_on)
  show "get_display_version True v n c = ''git-'' @ n @ ''.'' @ take 7 c"
    by (simp add: get_display_version_def)
  have "CHR ''-'' \<in> set (get_display_version True v n c)"
    by (simp add: get_display_version_def)
  moreover have "CHR ''-'' \<notin> set (get_display_version False v' n' c')"
    by (auto simp add: get_display_version_def first_field_split_on dest: set_takeWhileD)
  ultimately show "get_display_version True v n c \<noteq> get_display_version False v' n' c'"
    by metis
qed

subsection \<open>Koji tags: whitelist and blacklist\<close>

text \<open>
  Claim C2. When a whitelist is configured for the tag, the package is built for the
  tag exactly when its name is one of the words of the whitelist, whatever the
  blacklist says; when none is configured, the package is built exactly when no
  blacklist is configured or its name is not one of the words of the blacklist. So a
  whitelist \<^verbatim>\<open>pkgA\<close> skips \<^verbatim>\<open>pkgB\<close>, a blacklist \<^verbatim>\<open>pkgB\<close> with no whitelist skips
  \<^verbatim>\<open>pkgB\<close>, and a whitelist \<^verbatim>\<open>pkgB\<close> with a blacklist \<^verbatim>\<open>pkgB\<close> builds \<^verbatim>\<open>pkgB\<close>.
\<close>

theorem koji_tag_allowed_spec:
  "koji_tag_allowed cfg p t =
     (case cfg (t, ''whitelist'') of
        Some w \<Rightarrow> p \<in> set (option_words w)
      | None \<Rightarrow> (case cfg (t, ''blacklist'') of
                   Some bl \<Rightarrow> p \<notin> set (option_words bl)
                 | None \<Rightarrow> True))
   \<and> koji_tag_allowed (Map.empty((''tag'', ''whitelist'') \<mapsto> ''pkgA'')) ''pkgB'' ''tag'' = False
   \<and> koji_tag_allowed (Map.empty((''tag'', ''blacklist'') \<mapsto> ''pkgB'')) ''pkgB'' ''tag'' = False
   \<and> koji_tag_allowed (Map.empty((''tag'', ''whitelist'') \<mapsto> ''pkgB'',
        (''tag'', ''blacklist'') \<mapsto> ''pkgB'')) ''pkgB'' ''tag'' = True"
proof (intro conjI)
  show "koji_tag_allowed cfg p t =
     (case cfg (t, ''whitelist'') of
        Some w \<Rightarrow> p \<in> set (option_words w)
      | None \<Rightarrow> (case cfg (t, ''blacklist'') of
                   Some bl \<Rightarrow> p \<notin> set (option_words bl)
                 | None \<Rightarrow> True))"
    by (simp add: koji_tag_allowed_def is_whitelisted_def is_blacklisted_def has_option_def
        split: option.splits)
  show "koji_tag_allowed (Map.empty((''tag'', ''whitelist'') \<mapsto> ''pkgA'')) ''pkgB'' ''tag'' = False"
    by (simp add: koji_tag_allowed_def is_whitelisted_def is_blacklisted_def has_option_def
        option_words_def strip_def is_space_def)
  show "koji_tag_allowed (Map.empty((''tag'', ''blacklist'') \<mapsto> ''pkgB'')) ''pkgB'' ''tag'' = False"
    by (simp add: koji_tag_allowed_def is_whitelisted_def is_blacklisted_def has_option_def
        option_words_def strip_def is_space_def)
  show "koji_tag_allowed (Map.empty((''tag'', ''whitelist'') \<mapsto> ''pkgB'',
        (''tag'', ''blacklist'') \<mapsto> ''pkgB'')) ''pkgB'' ''tag'' = True"
    by (simp add: koji_tag_allowed_def is_whitelisted_def is_blacklisted_def has_option_def
        option_words_def strip_def is_space_def)
qed

subsection \<open>Syncing files into a build system checkout\<close>

text \<open>
  Claim C1, at the input of the specification's example: the files to copy are
  \<^verbatim>\<open>a.spec\<close> and \<^verbatim>\<open>b.patch\<close>, the destination holds \<^verbatim>\<open>a.spec\<close>, \<^verbatim>\<open>c.patch\<close> and
  \<^verbatim>\<open>.git\<close>. Both files are copied and \<^verbatim>\<open>c.patch\<close> is the one obsolete file, but
  \<^verbatim>\<open>_sync_files\<close> returns \<^verbatim>\<open>a.spec\<close>, the file that was already there, as the one new
  file, and \<^verbatim>\<open>b.patch\<close>, which was not there, in no list; and the list of updated files
  is empty whatever the input.
\<close>

theorem sync_files_example:
  "sync_files [(''/git/a.spec'', ''new spec''), (''/git/b.patch'', ''new patch'')]
          [(''a.spec'', ''old spec''), (''c.patch'', ''old patch''), (''.git'', '''')] =
     (([''a.spec''], [], [''c.patch'']),
      [(''a.spec'', ''new spec''), (''c.patch'', ''old patch''), (''.git'', ''''),
       (''b.patch'', ''new patch'')])
   \<and> fst (snd (fst (sync_files files_to_copy dest_dir))) = []"
  by (simp add: sync_files_def basename_def exists_in_def listdir_def
      PROTECTED_BUILD_SYS_FILES_def Let_def split: prod.splits)

subsection \<open>The scan of the spec file\<close>

lemma scan_lines_snoc: "scan_lines (ls @ [l]) = scan_line (scan_lines ls) l"
  by (simp add: scan_lines_def)

lemma scan_lines_Nil: "scan_lines [] = scan_init"
  by (simp add: scan_lines_def)

lemma array_index_scan: "array_index (scan_lines ls) = length ls"
  by (induction ls rule: rev_induct)
     (simp_all add: scan_lines_snoc scan_lines_Nil scan_init_def scan_line_def Let_def
        split: option.splits)

lemma insert_index_scan_line:
  "patch_insert_index (scan_line s l) =
     (if is_source_or_patch l then array_index s + 1 else patch_insert_index s)"
  by (simp add: scan_line_def is_source_or_patch_def Let_def split: option.splits)

lemma apply_index_scan_line:
  "patch_apply_index (scan_line s l) =
     (if is_prep_or_setup l then array_index s + 2 else patch_apply_index s)"
  by (simp add: scan_line_def is_prep_or_setup_def Let_def split: option.splits)

lemma patch_number_scan_line:
  "patch_number (scan_line s l) =
     (case patch_pattern l of Some n \<Rightarrow> n + 1 | None \<Rightarrow> patch_number s)"
  by (simp add: scan_line_def Let_def split: option.splits)

lemma insert_index_zero:
  "(patch_insert_index (scan_lines ls) = 0) = (\<not> list_ex is_source_or_patch ls)"
  by (induction ls rule: rev_induct)
     (simp_all add: scan_lines_snoc scan_lines_Nil scan_init_def insert_index_scan_line)

lemma apply_index_zero:
  "(patch_apply_index (scan_lines ls) = 0) = (\<not> list_ex is_prep_or_setup ls)"
  by (induction ls rule: rev_induct)
     (simp_all add: scan_lines_snoc scan_lines_Nil scan_init_def apply_index_scan_line)

text \<open>
  Claim C5. \<^verbatim>\<open>_patch_upstream\<close> fails with \<open>InsertionPointNotFoundError\<close> exactly when
  one of the two indices is still 0 after the loop; the insert index is still 0 exactly
  when no line is a \<^verbatim>\<open>SourceN:\<close> or \<^verbatim>\<open>PatchN:\<close> directive, and the apply index is
  still 0 exactly when no line begins with \<^verbatim>\<open>%prep\<close> or \<^verbatim>\<open>%setup\<close>. So a spec file
  that lacks either kind of line, and one that lacks both, fails with that error.
\<close>

theorem patch_upstream_points_error:
  "(patch_upstream_points lines = Inl InsertionPointNotFoundError) =
     (patch_insert_index (scan_lines lines) = 0 \<or> patch_apply_index (scan_lines lines) = 0)
   \<and> (patch_insert_index (scan_lines lines) = 0) = (\<not> list_ex is_source_or_patch lines)
   \<and> (patch_apply_index (scan_lines lines) = 0) = (\<not> list_ex is_prep_or_setup lines)"
  by (simp add: patch_upstream_points_def Let_def insert_index_zero apply_index_zero)

lemma insert_index_bound:
  "\<forall>i<length ls. is_source_or_patch (ls ! i) \<longrightarrow> i < p \<Longrightarrow>
     patch_insert_index (scan_lines ls) \<le> p"
proof (induction ls rule: rev_induct)
  case Nil
  then show ?case by (simp add: scan_lines_Nil scan_init_def)
next
  case (snoc l ls)
  have a: "\<forall>i<length ls. is_source_or_patch (ls ! i) \<longrightarrow> i < p"
  proof (intro allI impI)
    fix i assume "i < length ls" "is_source_or_patch (ls ! i)"
    with snoc.prems[rule_format, of i] show "i < p" by (simp add: nth_append)
  qed
  show ?case
  proof (cases "is_source_or_patch l")
    case True
    with snoc.prems[rule_format, of "length ls"] have "length ls < p" by simp
    with True show ?thesis
      by (simp add: scan_lines_snoc insert_index_scan_line array_index_scan)
  next
    case False
    with snoc.IH[OF a] show ?thesis
      by (simp add: scan_lines_snoc insert_index_scan_line)
  qed
qed

lemma apply_index_bound:
  "p < length ls \<Longrightarrow> is_prep_or_setup (ls ! p) \<Longrightarrow>
     p + 2 \<le> patch_apply_index (scan_lines ls)"
proof (induction ls rule: rev_induct)
  case Nil
  then show ?case by simp
next
  case (snoc l ls)
  show ?case
  proof (cases "is_prep_or_setup l")
    case True
    with snoc.prems show ?thesis
      by (simp add: scan_lines_snoc apply_index_scan_line array_index_scan)
  next
    case False
    with snoc.prems have "p < length ls" "is_prep_or_setup (ls ! p)"
      by (auto simp: nth_append less_Suc_eq split: if_splits)
    with snoc.IH False show ?thesis
      by (simp add: scan_lines_snoc apply_index_scan_line)
  qed
qed

lemma patch_number_only:
  "\<forall>l\<in>set ls. patch_pattern l = None \<or> patch_pattern l = Some k \<Longrightarrow>
     patch_number (scan_lines ls) =
       (if list_ex (\<lambda>l. patch_pattern l = Some k) ls then k + 1 else 0)"
  by (induction ls rule: rev_induct)
     (auto simp add: scan_lines_snoc scan_lines_Nil scan_init_def patch_number_scan_line
        split: option.splits)

text \<open>
  A spec file whose \<^verbatim>\<open>PatchN:\<close> lines are all \<^verbatim>\<open>Patch3:\<close> lines, and whose
  \<^verbatim>\<open>SourceN:\<close> and \<^verbatim>\<open>PatchN:\<close> lines stand, in any order, before a line \<open>p\<close> that
  begins with \<^verbatim>\<open>%prep\<close>: the patch number is 4, the insert index is at most \<open>p\<close> and
  the apply index is at least \<open>p + 2\<close>.
\<close>

lemma patch_points_only_patch3:
  assumes prep: "p < length lines" "startswith (lines ! p) ''%prep''"
    and before: "\<forall>i<length lines. is_source_or_patch (lines ! i) \<longrightarrow> i < p"
    and source0: "\<exists>l\<in>set lines. keyword_number ''Source'' l = Some 0"
    and patch3: "\<exists>l\<in>set lines. patch_pattern l = Some 3"
    and only3: "\<forall>l\<in>set lines. patch_pattern l = None \<or> patch_pattern l = Some 3"
  shows "\<exists>insert_index apply_index.
           patch_upstream_points lines = Inr (4, insert_index, apply_index, lines)
           \<and> 0 < insert_index \<and> insert_index \<le> p \<and> p + 2 \<le> apply_index
           \<and> insert_index < apply_index"
proof -
  let ?s = "scan_lines lines"
  have m: "is_prep_or_setup (lines ! p)"
    using prep by (simp add: is_prep_or_setup_def)
  have i: "patch_insert_index ?s \<le> p"
    using before by (rule insert_index_bound)
  have a: "p + 2 \<le> patch_apply_index ?s"
    using prep(1) m by (rule apply_index_bound)
  have "list_ex is_source_or_patch lines"
    using patch3 by (force simp: list_ex_iff is_source_or_patch_def)
  then have i0: "patch_insert_index ?s \<noteq> 0"
    by (simp add: insert_index_zero)
  have n: "patch_number ?s = 4"
    using patch3 by (simp add: patch_number_only[OF only3] list_ex_iff)
  from i a i0 n show ?thesis
    by (simp add: patch_upstream_points_def Let_def)
qed

lemma patch_points_only_patch3_example:
  "\<exists>insert_index apply_index.
     patch_upstream_points spec_example_swapped =
       Inr (4, insert_index, apply_index, spec_example_swapped)
     \<and> 0 < insert_index \<and> insert_index \<le> 2 \<and> 2 + 2 \<le> apply_index
     \<and> insert_index < apply_index"
  using patch_points_only_patch3[of 2 spec_example_swapped]
  by (simp add: spec_example_swapped_def startswith_def is_source_or_patch_def
      source_pattern_def patch_pattern_def keyword_number_def is_digit_def int_of_digits_def
      nl_def less_Suc_eq Let_def All_less_Suc2 eval_nat_numeral)

lemma patch_numbers_seen_snoc:
  "patch_numbers_seen (ls @ [l]) =
     patch_numbers_seen ls @ (case patch_pattern l of None \<Rightarrow> [] | Some n \<Rightarrow> [n])"
  by (simp add: patch_numbers_seen_def List.map_filter_def split: option.splits)

lemma patch_number_scan:
  "patch_number (scan_lines ls) =
     (if patch_numbers_seen ls = [] then 0 else last (patch_numbers_seen ls) + 1)"
proof (induction ls rule: rev_induct)
  case Nil
  show ?case
    by (simp add: scan_lines_Nil scan_init_def patch_numbers_seen_def List.map_filter_def)
next
  case (snoc l ls)
  then show ?case
    by (simp add: scan_lines_snoc patch_number_scan_line patch_numbers_seen_snoc
        split: option.splits)
qed

text \<open>
  Claim C4. The loop of \<^verbatim>\<open>_patch_upstream\<close> overwrites the patch number at every
  \<^verbatim>\<open>PatchN:\<close> line, so what it returns is the number of the last \<^verbatim>\<open>PatchN:\<close> line
  plus one, and 0 when there is none. For the spec file with the directives \<^verbatim>\<open>Source0\<close>,
  \<^verbatim>\<open>Patch3\<close> and \<^verbatim>\<open>Patch1\<close>, in that order, before \<^verbatim>\<open>%prep\<close>, the largest patch
  number seen is 3 and the claim gives patch number 4; the source returns patch number
  2, with insert index 3 and apply index 6.
\<close>

theorem patch_number_last_seen:
  "patch_number (scan_lines lines) =
     (if patch_numbers_seen lines = [] then 0 else last (patch_numbers_seen lines) + 1)
   \<and> patch_numbers_seen spec_example_unordered = [3, 1]
   \<and> Max (set (patch_numbers_seen spec_example_unordered)) + 1 = 4
   \<and> patch_upstream_points spec_example_unordered = Inr (2, 3, 6, spec_example_unordered)"
proof -
  have s: "patch_numbers_seen spec_example_unordered = [3, 1]"
    by (simp add: patch_numbers_seen_def List.map_filter_def spec_example_unordered_def
        patch_pattern_def keyword_number_def startswith_def is_digit_def int_of_digits_def
        nl_def Let_def)
  have p: "patch_upstream_points spec_example_unordered = Inr (2, 3, 6, spec_example_unordered)"
    by (simp add: patch_upstream_points_def scan_lines_def scan_line_def scan_init_def
        spec_example_unordered_def startswith_def source_pattern_def patch_pattern_def
        keyword_number_def is_digit_def int_of_digits_def nl_def Let_def)
  from s p patch_number_scan[of lines] show ?thesis
    by simp
qed

subsection \<open>Inserting the two lines\<close>

lemma insert_patch_lines_eq:
  assumes "i < a"
  shows "insert_patch_lines lines n i a f =
           take i lines @ patch_line n f # take (a - 1 - i) (drop i lines) @
           apply_line n # drop (a - 1) lines"
proof -
  obtain k where k: "a = Suc (i + k)"
    using assms less_imp_Suc_add by blast
  show ?thesis
  proof (cases "i \<le> length lines")
    case True
    then show ?thesis
      by (simp add: insert_patch_lines_def list_insert_def k min_def drop_Cons' take_Cons')
  next
    case False
    then show ?thesis
      by (simp add: insert_patch_lines_def list_insert_def k)
  qed
qed

lemma insert_index_last:
  "patch_insert_index (scan_lines ls) \<noteq> 0 \<Longrightarrow>
     patch_insert_index (scan_lines ls) \<le> length ls \<and>
     is_source_or_patch (ls ! (patch_insert_index (scan_lines ls) - 1))"
proof (induction ls rule: rev_induct)
  case Nil
  then show ?case by (simp add: scan_lines_Nil scan_init_def)
next
  case (snoc l ls)
  show ?case
  proof (cases "is_source_or_patch l")
    case True
    then show ?thesis
      by (simp add: scan_lines_snoc insert_index_scan_line array_index_scan)
  next
    case False
    with snoc.prems have nz: "patch_insert_index (scan_lines ls) \<noteq> 0"
      by (simp add: scan_lines_snoc insert_index_scan_line)
    from snoc.IH[OF nz] nz False show ?thesis
      by (auto simp add: scan_lines_snoc insert_index_scan_line nth_append)
  qed
qed

lemma apply_index_last:
  "patch_apply_index (scan_lines ls) \<noteq> 0 \<Longrightarrow>
     2 \<le> patch_apply_index (scan_lines ls) \<and>
     patch_apply_index (scan_lines ls) \<le> length ls + 1 \<and>
     is_prep_or_setup (ls ! (patch_apply_index (scan_lines ls) - 2))"
proof (induction ls rule: rev_induct)
  case Nil
  then show ?case by (simp add: scan_lines_Nil scan_init_def)
next
  case (snoc l ls)
  show ?case
  proof (cases "is_prep_or_setup l")
    case True
    then show ?thesis
      by (simp add: scan_lines_snoc apply_index_scan_line array_index_scan)
  next
    case False
    with snoc.prems have nz: "patch_apply_index (scan_lines ls) \<noteq> 0"
      by (simp add: scan_lines_snoc apply_index_scan_line)
    from snoc.IH[OF nz] nz False show ?thesis
      by (auto simp add: scan_lines_snoc apply_index_scan_line nth_append)
  qed
qed

lemma insert_index_after:
  "p < length ls \<Longrightarrow> is_source_or_patch (ls ! p) \<Longrightarrow>
     p + 1 \<le> patch_insert_index (scan_lines ls)"
proof (induction ls rule: rev_induct)
  case Nil
  then show ?case by simp
next
  case (snoc l ls)
  show ?case
  proof (cases "is_source_or_patch l")
    case True
    with snoc.prems show ?thesis
      by (simp add: scan_lines_snoc insert_index_scan_line array_index_scan)
  next
    case False
    with snoc.prems have "p < length ls" "is_source_or_patch (ls ! p)"
      by (auto simp: nth_append less_Suc_eq split: if_splits)
    with snoc.IH False show ?thesis
      by (simp add: scan_lines_snoc insert_index_scan_line)
  qed
qed

lemma length_list_insert: "length (list_insert i x xs) = Suc (length xs)"
  by (simp add: list_insert_def)

lemma insert_patch_lines_eq_le:
  assumes "a \<le> i" "i \<le> length lines"
  shows "insert_patch_lines lines n i a f =
           take a lines @ apply_line n # take (i - a) (drop a lines) @
           patch_line n f # drop i lines"
proof -
  obtain k where k: "i = a + k"
    using assms(1) le_Suc_ex by blast
  with assms(2) show ?thesis
    by (simp add: insert_patch_lines_def list_insert_def min_def take_add)
qed

text \<open>
  Claim C6, as the source has it. When \<^verbatim>\<open>_patch_upstream\<close> has found its indices
  \<open>i\<close> and \<open>a\<close>, \<^verbatim>\<open>patch_upstream\<close> inserts exactly two lines, the
  \<^verbatim>\<open>PatchN: <filename>\<close> directive and the \<^verbatim>\<open>%patchN -p1\<close> line: the directive first,
  at the insert index \<open>i\<close>, and the apply line second, at the apply index \<open>a\<close> of the
  list that already holds the directive. Line \<open>i - 1\<close> is the last \<^verbatim>\<open>SourceN:\<close> or
  \<^verbatim>\<open>PatchN:\<close> line of the file and line \<open>a - 2\<close> is the last line that begins with
  \<^verbatim>\<open>%prep\<close> or \<^verbatim>\<open>%setup\<close>: the scan has counted the directive into the apply index.
  So when \<open>i < a\<close>, the result is the original lines with the directive directly after
  the last \<^verbatim>\<open>SourceN:\<close> or \<^verbatim>\<open>PatchN:\<close> line and the apply line directly after the last
  \<^verbatim>\<open>%prep\<close> or \<^verbatim>\<open>%setup\<close> line. When \<open>a \<le> i\<close>, the apply line stands before original
  line \<open>a\<close>, one line below that marker, and the directive still directly after the
  last \<^verbatim>\<open>SourceN:\<close> or \<^verbatim>\<open>PatchN:\<close> line.
\<close>

theorem patch_upstream_inserts:
  assumes pts: "patch_upstream_points lines = Inr (n, i, a, lines')"
  shows "lines' = lines
   \<and> patch_upstream f lines =
       Inr (list_insert a (apply_line n) (list_insert i (patch_line n f) lines))
   \<and> (\<forall>r. patch_upstream f lines = Inr r \<longrightarrow> length r = length lines + 2)
   \<and> 0 < i \<and> i \<le> length lines \<and> is_source_or_patch (lines ! (i - 1))
   \<and> (\<forall>j<length lines. is_source_or_patch (lines ! j) \<longrightarrow> j < i)
   \<and> 2 \<le> a \<and> a \<le> length lines + 1 \<and> is_prep_or_setup (lines ! (a - 2))
   \<and> (\<forall>j<length lines. is_prep_or_setup (lines ! j) \<longrightarrow> j + 2 \<le> a)
   \<and> (i < a \<longrightarrow>
        patch_upstream f lines =
          Inr (take i lines @ patch_line n f # take (a - 1 - i) (drop i lines) @
               apply_line n # drop (a - 1) lines))
   \<and> (a \<le> i \<longrightarrow>
        patch_upstream f lines =
          Inr (take a lines @ apply_line n # take (i - a) (drop a lines) @
               patch_line n f # drop i lines))"
proof -
  let ?s = "scan_lines lines"
  from pts have nz: "patch_insert_index ?s \<noteq> 0" "patch_apply_index ?s \<noteq> 0"
    and eq: "n = patch_number ?s" "i = patch_insert_index ?s" "a = patch_apply_index ?s"
      "lines' = lines"
    by (auto simp: patch_upstream_points_def Let_def split: if_splits)
  have r: "patch_upstream f lines = Inr (insert_patch_lines lines n i a f)"
    using pts eq by (simp add: patch_upstream_def)
  have len: "length (insert_patch_lines lines n i a f) = length lines + 2"
    by (simp add: insert_patch_lines_def length_list_insert)
  have il: "i \<le> length lines" "is_source_or_patch (lines ! (i - 1))"
    using insert_index_last[OF nz(1)] eq by simp_all
  have al: "2 \<le> a" "a \<le> length lines + 1" "is_prep_or_setup (lines ! (a - 2))"
    using apply_index_last[OF nz(2)] eq by simp_all
  have ia: "\<forall>j<length lines. is_source_or_patch (lines ! j) \<longrightarrow> j < i"
    using insert_index_after[of _ lines] eq by fastforce
  have aa: "\<forall>j<length lines. is_prep_or_setup (lines ! j) \<longrightarrow> j + 2 \<le> a"
    using apply_index_bound[of _ lines] eq by fastforce
  have c1: "i < a \<longrightarrow> insert_patch_lines lines n i a f =
          take i lines @ patch_line n f # take (a - 1 - i) (drop i lines) @
               apply_line n # drop (a - 1) lines"
    using insert_patch_lines_eq by blast
  have c2: "a \<le> i \<longrightarrow> insert_patch_lines lines n i a f =
          take a lines @ apply_line n # take (i - a) (drop a lines) @
               patch_line n f # drop i lines"
    using insert_patch_lines_eq_le il(1) by blast
  have u: "insert_patch_lines lines n i a f =
             list_insert a (apply_line n) (list_insert i (patch_line n f) lines)"
    by (simp add: insert_patch_lines_def)
  from nz eq(2) have i0: "0 < i" by simp
  show ?thesis
    unfolding r using eq(4) u len i0 il al ia aa c1 c2 by simp
qed

lemma spec_example_points: "patch_upstream_points spec_example = Inr (4, 3, 7, spec_example)"
  by (simp add: patch_upstream_points_def scan_lines_def scan_line_def scan_init_def
      spec_example_def startswith_def source_pattern_def patch_pattern_def keyword_number_def
      is_digit_def int_of_digits_def nl_def Let_def)

lemma spec_example_prep_first_points:
  "patch_upstream_points spec_example_prep_first = Inr (0, 2, 2, spec_example_prep_first)"
  by (simp add: patch_upstream_points_def scan_lines_def scan_line_def scan_init_def
      spec_example_prep_first_def startswith_def source_pattern_def patch_pattern_def
      keyword_number_def is_digit_def int_of_digits_def nl_def Let_def)

theorem patch_upstream_inserts_witness:
  "patch_upstream ''up.patch'' spec_example =
     Inr [''Name: pkg'' @ [nl], ''Source0: pkg.tar.gz'' @ [nl], ''Patch3: fix.patch'' @ [nl],
          ''Patch4: up.patch'' @ [nl],
          ''%description'' @ [nl], ''%prep'' @ [nl], ''%setup -q'' @ [nl],
          ''%patch4 -p1'' @ [nl], ''%build'' @ [nl]]
   \<and> is_source_or_patch (spec_example ! (3 - 1))
   \<and> is_prep_or_setup (spec_example ! (7 - 2))
   \<and> patch_upstream ''up.patch'' spec_example_prep_first =
       Inr [''%prep'' @ [nl], ''Source0: pkg.tar.gz'' @ [nl], ''%patch0 -p1'' @ [nl],
            ''Patch0: up.patch'' @ [nl]]"
  using patch_upstream_inserts[OF spec_example_points, of "''up.patch''"]
    patch_upstream_inserts[OF spec_example_prep_first_points, of "''up.patch''"]
  by (simp add: spec_example_def spec_example_prep_first_def patch_line_def apply_line_def
      nl_def digit_char_def list_insert_def)

text \<open>
  Claim C6 as stated fails on \<open>spec_example\<close>, whose indices are 3 and 7: the source
  inserts at the smaller index first, and its result differs from the one of inserting
  at the larger index first, which would put the apply line at index 7 of the original
  lines, after \<^verbatim>\<open>%build\<close>, where the source has it before.
\<close>

theorem patch_upstream_larger_first_counterexample:
  "patch_upstream_points spec_example = Inr (4, 3, 7, spec_example)
   \<and> patch_upstream ''up.patch'' spec_example =
       Inr (insert_patch_lines spec_example 4 3 7 ''up.patch'')
   \<and> insert_patch_lines spec_example 4 3 7 ''up.patch'' \<noteq>
       applyPatchInsertion_larger_first spec_example 4 3 7 ''up.patch''
   \<and> insert_patch_lines spec_example 4 3 7 ''up.patch'' ! 7 = apply_line 4
   \<and> applyPatchInsertion_larger_first spec_example 4 3 7 ''up.patch'' ! 7 = ''%build'' @ [nl]"
  by (simp add: patch_upstream_def patch_upstream_points_def scan_lines_def scan_line_def
      scan_init_def spec_example_def insert_patch_lines_def
      applyPatchInsertion_larger_first_def list_insert_def startswith_def source_pattern_def
      patch_pattern_def keyword_number_def is_digit_def int_of_digits_def nl_def Let_def
      apply_line_def patch_line_def)

subsection \<open>The stages of a build\<close>

lemma same_settings_refl: "same_settings b b"
  by (simp add: same_settings_def)

lemma same_settings_trans: "same_settings a b \<Longrightarrow> same_settings b c \<Longrightarrow> same_settings a c"
  by (simp add: same_settings_def)

lemma create_build_dirs_facts:
  "same_settings b (create_build_dirs b)"
  "ran_tgz (create_build_dirs b) = ran_tgz b"
  "ran_setup_test_specfile (create_build_dirs b) = ran_setup_test_specfile b"
  "spec_file (create_build_dirs b) = spec_file b"
  "build_trace (create_build_dirs b) = build_trace b"
  "export_count (create_build_dirs b) = export_count b"
  "helper_runs (create_build_dirs b) = helper_runs b"
  by (simp_all add: create_build_dirs_def same_settings_def build_trace_def export_count_def
      helper_runs_def)

lemma tgz_facts:
  "same_settings b (tgz e b)"
  "ran_tgz (tgz e b)"
  "ran_setup_test_specfile (tgz e b) = ran_setup_test_specfile b"
  "spec_file (tgz e b) =
     Some (path_join (rpmbuild_gitcopy b) (find_spec_file e (rpmbuild_gitcopy b)))"
  "build_trace (tgz e b) = build_trace b"
  "export_count (tgz e b) = export_count b + 1"
  "helper_runs (tgz e b) = helper_runs b"
  by (cases "kind b";
      simp add: tgz_def setup_sources_def create_build_dirs_def same_settings_def
        build_trace_def export_count_def helper_runs_def Let_def)+

lemma setup_test_specfile_facts:
  "same_settings b (setup_test_specfile e b)"
  "ran_tgz (setup_test_specfile e b) = ran_tgz b"
  "spec_file (setup_test_specfile e b) = spec_file b"
  "build_trace (setup_test_specfile e b) = build_trace b"
  "export_count (setup_test_specfile e b) = export_count b"
  by (cases "kind b";
      simp add: setup_test_specfile_def same_settings_def
        build_trace_def export_count_def helper_runs_def Let_def)+

lemma srpm_cmd_cong:
  "same_settings b b' \<Longrightarrow> spec_file b' = sf \<Longrightarrow>
     srpm_cmd b' x = srpm_cmd (b\<lparr>spec_file := sf\<rparr>) x"
  by (cases "kind b"; simp add: srpm_cmd_def get_rpmbuild_dir_options_def same_settings_def)

lemma srpm_Inr:
  assumes "srpm e d b = Inr b1"
  shows "same_settings b b1"
    and "ran_tgz b1"
    and "spec_file b1 = spec_file_ready e b"
    and "build_trace b1 = build_trace b @
           [Rpmbuild (srpm_cmd (b\<lparr>spec_file := spec_file_ready e b\<rparr>)
                        (define_dist_of (dist b) d))]"
    and "srpm_location b1 =
           Some (first_field (wrote_suffixes (run_command e
             (srpm_cmd (b\<lparr>spec_file := spec_file_ready e b\<rparr>)
                (define_dist_of (dist b) d)))))"
    and "export_count b1 = export_count b + (if ran_tgz b then 0 else 1)"
proof -
  define b1' where "b1' = create_build_dirs b"
  define b2 where "b2 = (if \<not> ran_tgz b1' then tgz e b1' else b1')"
  define b3 where "b3 = (if test b2 then setup_test_specfile e b2 else b2)"
  define cmd where "cmd = srpm_cmd b3 (define_dist_of (dist b3) d)"
  have s1: "same_settings b b1'"
    by (simp add: b1'_def create_build_dirs_facts)
  have s2: "same_settings b b2"
    using s1 tgz_facts(1)[of b1' e] by (auto simp: b2_def intro: same_settings_trans)
  have s3: "same_settings b b3"
    using s2 setup_test_specfile_facts(1)[of b2 e]
    by (auto simp: b3_def intro: same_settings_trans)
  have r3: "ran_tgz b3"
    by (simp add: b3_def b2_def setup_test_specfile_facts tgz_facts)
  have f3: "spec_file b3 = spec_file_ready e b"
    using s1
    by (simp add: b3_def b2_def b1'_def setup_test_specfile_facts tgz_facts
        create_build_dirs_facts spec_file_ready_def same_settings_def)
  have t3: "build_trace b3 = build_trace b"
    by (simp add: b3_def b2_def b1'_def setup_test_specfile_facts tgz_facts
        create_build_dirs_facts)
  have x3: "export_count b3 = export_count b + (if ran_tgz b then 0 else 1)"
    by (simp add: b3_def b2_def b1'_def setup_test_specfile_facts tgz_facts
        create_build_dirs_facts)
  have c: "cmd = srpm_cmd (b\<lparr>spec_file := spec_file_ready e b\<rparr>) (define_dist_of (dist b) d)"
    using srpm_cmd_cong[OF s3 f3] s3 by (simp add: cmd_def same_settings_def)
  have out: "wrote_suffixes (run_command e cmd) \<noteq> []"
    and b1: "b1 = b3\<lparr>effects := effects b3 @ [Rpmbuild cmd],
                srpm_location := Some (first_field (wrote_suffixes (run_command e cmd))),
                artifacts := artifacts b3 @ [first_field (wrote_suffixes (run_command e cmd))]\<rparr>"
    using assms unfolding cmd_def b3_def b2_def b1'_def
    by (simp_all add: srpm_def Let_def find_wrote_eq split: if_splits)
  show "same_settings b b1" using s3 by (simp add: b1 same_settings_def)
  show "ran_tgz b1" using r3 by (simp add: b1)
  show "spec_file b1 = spec_file_ready e b" using f3 by (simp add: b1)
  show "build_trace b1 = build_trace b @
           [Rpmbuild (srpm_cmd (b\<lparr>spec_file := spec_file_ready e b\<rparr>)
                        (define_dist_of (dist b) d))]"
    using t3 c by (simp add: b1 build_trace_def)
  show "srpm_location b1 =
           Some (first_field (wrote_suffixes (run_command e
             (srpm_cmd (b\<lparr>spec_file := spec_file_ready e b\<rparr>)
                (define_dist_of (dist b) d)))))"
    using c by (simp add: b1)
  show "export_count b1 = export_count b + (if ran_tgz b then 0 else 1)"
    using x3 by (simp add: b1 export_count_def)
qed

lemma submit_build_facts:
  "same_settings b (submit_build x opts t b)"
  "ran_tgz (submit_build x opts t b) = ran_tgz b"
  "spec_file (submit_build x opts t b) = spec_file b"
  "srpm_location (submit_build x opts t b) = srpm_location b"
  "build_trace (submit_build x opts t b) =
     build_trace b @ (if dry_run b then [] else [Submit (submit_cmd x opts t (srpm_location b))])"
  "export_count (submit_build x opts t b) = export_count b"
  "helper_runs (submit_build x opts t b) = helper_runs b"
  by (simp_all add: submit_build_def same_settings_def build_trace_def export_count_def
      helper_runs_def Let_def)

lemma koji_srpm_cmd_cong:
  assumes "same_settings b b'" and "spec_file_ready e b' = spec_file_ready e b"
  shows "koji_srpm_cmd e b' t = koji_srpm_cmd e b t"
proof -
  have "same_settings b (b'\<lparr>spec_file := spec_file_ready e b\<rparr>)"
    using assms(1) by (simp add: same_settings_def)
  from srpm_cmd_cong[OF this, of "spec_file_ready e b"] assms show ?thesis
    by (simp add: koji_srpm_cmd_def same_settings_def)
qed

lemma koji_tag_effects_cong:
  assumes "same_settings b b'" and "spec_file_ready e b' = spec_file_ready e b"
  shows "koji_tag_effects e b' = koji_tag_effects e b"
    and "koji_tag_selected b' = koji_tag_selected b"
proof -
  have c: "\<And>t. koji_srpm_cmd e b' t = koji_srpm_cmd e b t"
    using assms by (rule koji_srpm_cmd_cong)
  show "koji_tag_effects e b' = koji_tag_effects e b"
  proof (rule ext)
    fix t show "koji_tag_effects e b' t = koji_tag_effects e b t"
      using assms(1) c
      by (simp add: koji_tag_effects_def koji_srpm_path_def koji_opts_of_def
          same_settings_def)
  qed
  show "koji_tag_selected b' = koji_tag_selected b"
  proof (rule ext)
    fix t show "koji_tag_selected b' t = koji_tag_selected b t"
      using assms(1) by (simp add: koji_tag_selected_def same_settings_def)
  qed
qed

lemma koji_loop_skip:
  "\<not> koji_tag_selected b t \<Longrightarrow> koji_loop e opts (t # rest) b = Inr b' \<Longrightarrow>
     koji_loop e opts rest b = Inr b'"
  by (auto simp: koji_tag_selected_def truthy_def config_get_def
      split: option.splits if_splits)

lemma koji_loop_step:
  assumes "koji_tag_selected b t" and "koji_loop e opts (t # rest) b = Inr b'"
  shows "\<exists>disttag b1. config b (t, ''disttag'') = Some disttag \<and>
           srpm e (Some disttag) b = Inr b1 \<and>
           koji_loop e opts rest (submit_build ''koji'' opts t b1) = Inr b'"
proof -
  from assms(1) have c: "\<not> (truthy (only_tags b) \<and>
      t \<notin> set (case only_tags b of None \<Rightarrow> [] | Some ts \<Rightarrow> ts))"
    and al: "koji_tag_allowed (config b) (project_name b) t"
    by (auto simp: koji_tag_selected_def truthy_def split: option.splits if_splits)
  from assms(2) c have 1: "(case config_get (config b) t ''disttag'' of
              Inl err \<Rightarrow> Inl err
            | Inr disttag \<Rightarrow>
                if \<not> koji_tag_allowed (config b) (project_name b) t
                then koji_loop e opts rest b
                else (case srpm e (Some disttag) b of
                        Inl err \<Rightarrow> Inl err
                      | Inr b1 \<Rightarrow>
                          koji_loop e opts rest
                            (submit_build ''koji'' opts t b1))) = Inr b'"
    by (simp only: koji_loop.simps if_False)
  then obtain disttag where d: "config b (t, ''disttag'') = Some disttag"
    by (cases "config b (t, ''disttag'')") (auto simp: config_get_def)
  with 1 al have 2: "(case srpm e (Some disttag) b of
                        Inl err \<Rightarrow> Inl err
                      | Inr b1 \<Rightarrow>
                          koji_loop e opts rest
                            (submit_build ''koji'' opts t b1)) = Inr b'"
    by (simp add: config_get_def)
  then obtain b1 where "srpm e (Some disttag) b = Inr b1"
    by (cases "srpm e (Some disttag) b") auto
  with 2 d show ?thesis by simp
qed

lemma koji_release_eq:
  "koji_release e b =
     (case config b (''koji'', ''autobuild_tags'') of
        None \<Rightarrow> Inl NoOptionError
      | Some autobuild_tags \<Rightarrow>
          koji_loop e (koji_opts_of b) (split_on CHR '' '' (strip autobuild_tags)) b)"
  by (simp add: koji_release_def config_get_def koji_opts_of_def Let_def
      split: option.splits)

lemma koji_loop_trace:
  "koji_loop e (koji_opts_of b) tags b = Inr b' \<Longrightarrow>
     same_settings b b' \<and>
     build_trace b' =
       build_trace b @ concat (map (koji_tag_effects e b) (filter (koji_tag_selected b) tags))"
proof (induction tags arbitrary: b)
  case Nil
  then show ?case by (simp add: same_settings_refl)
next
  case (Cons t rest)
  show ?case
  proof (cases "koji_tag_selected b t")
    case False
    from Cons.IH[OF koji_loop_skip[OF False Cons.prems]] False show ?thesis by simp
  next
    case True
    from koji_loop_step[OF True Cons.prems] obtain disttag b1 where
      d: "config b (t, ''disttag'') = Some disttag"
      and b1: "srpm e (Some disttag) b = Inr b1"
      and rest: "koji_loop e (koji_opts_of b) rest
                   (submit_build ''koji'' (koji_opts_of b) t b1) = Inr b'"
      by blast
    let ?b2 = "submit_build ''koji'' (koji_opts_of b) t b1"
    note f = srpm_Inr[OF b1]
    have s2: "same_settings b ?b2"
      using f(1) submit_build_facts(1) by (rule same_settings_trans)
    have r2: "spec_file_ready e ?b2 = spec_file_ready e b"
      using f(2,3) by (simp add: spec_file_ready_def submit_build_facts)
    have o2: "koji_opts_of ?b2 = koji_opts_of b"
      using s2 by (simp add: koji_opts_of_def same_settings_def)
    have cmd: "srpm_cmd (b\<lparr>spec_file := spec_file_ready e b\<rparr>)
                 (define_dist_of (dist b) (Some disttag)) = koji_srpm_cmd e b t"
      by (simp add: koji_srpm_cmd_def d)
    have t2: "build_trace ?b2 = build_trace b @ koji_tag_effects e b t"
      using f(1) f(4) f(5)
      by (simp add: submit_build_facts cmd koji_tag_effects_def koji_srpm_path_def
          same_settings_def)
    from rest have "koji_loop e (koji_opts_of ?b2) rest ?b2 = Inr b'"
      by (simp add: o2)
    from Cons.IH[OF this] have
      "same_settings ?b2 b'"
      "build_trace b' = build_trace ?b2 @
         concat (map (koji_tag_effects e ?b2) (filter (koji_tag_selected ?b2) rest))"
      by simp_all
    with s2 t2 True koji_tag_effects_cong[OF s2 r2] show ?thesis
      by (auto intro: same_settings_trans)
  qed
qed

lemma more_facts:
  "sources (create_build_dirs b) = sources b"
  "sources (setup_test_specfile e b) = sources b"
  "helper_runs (setup_test_specfile e b) =
     helper_runs b +
     (if test b
      then (case kind b of
              Builder \<Rightarrow> if ran_setup_test_specfile b then 0 else 1
            | NoTgzBuilder \<Rightarrow> 1)
      else 0)"
  "ran_setup_test_specfile (setup_test_specfile e b) =
     (ran_setup_test_specfile b \<or> (kind b = Builder \<and> test b))"
  by (auto simp add: setup_test_specfile_def create_build_dirs_def helper_runs_def Let_def
      split: variant.splits)

lemma tgz_sources_Builder:
  "kind b = Builder \<Longrightarrow>
     sources (tgz e b) = sources b @ [path_join (rpmbuild_basedir b) (tgz_filename b)]"
  by (simp add: tgz_def setup_sources_def create_build_dirs_def Let_def)

lemma srpm_cases:
  "(\<exists>b1. srpm e d b = Inr b1) =
     (wrote_suffixes (run_command e
        (srpm_cmd (b\<lparr>spec_file := spec_file_ready e b\<rparr>) (define_dist_of (dist b) d))) \<noteq> [])"
proof -
  define b1' where "b1' = create_build_dirs b"
  define b2 where "b2 = (if \<not> ran_tgz b1' then tgz e b1' else b1')"
  define b3 where "b3 = (if test b2 then setup_test_specfile e b2 else b2)"
  define cmd where "cmd = srpm_cmd b3 (define_dist_of (dist b3) d)"
  have s1: "same_settings b b1'"
    by (simp add: b1'_def create_build_dirs_facts)
  have s2: "same_settings b b2"
    using s1 tgz_facts(1)[of b1' e] by (auto simp: b2_def intro: same_settings_trans)
  have s3: "same_settings b b3"
    using s2 setup_test_specfile_facts(1)[of b2 e]
    by (auto simp: b3_def intro: same_settings_trans)
  have f3: "spec_file b3 = spec_file_ready e b"
    using s1
    by (simp add: b3_def b2_def b1'_def setup_test_specfile_facts tgz_facts
        create_build_dirs_facts spec_file_ready_def same_settings_def)
  have c: "cmd = srpm_cmd (b\<lparr>spec_file := spec_file_ready e b\<rparr>) (define_dist_of (dist b) d)"
    using srpm_cmd_cong[OF s3 f3] s3 by (simp add: cmd_def same_settings_def)
  have "srpm e d b =
          (case find_wrote_in_rpmbuild_output (run_command e cmd) of
             Inl err \<Rightarrow> Inl err
           | Inr paths \<Rightarrow>
               Inr (b3\<lparr>effects := effects b3 @ [Rpmbuild cmd],
                       srpm_location := Some (first_field paths),
                       artifacts := artifacts b3 @ [first_field paths]\<rparr>))"
    unfolding cmd_def b3_def b2_def b1'_def
    by (simp add: srpm_def Let_def split: sum.splits)
  then have "(\<exists>b1. srpm e d b = Inr b1) = (wrote_suffixes (run_command e cmd) \<noteq> [])"
    by (simp add: find_wrote_eq)
  with c show ?thesis by simp
qed

lemma srpm_more:
  assumes "srpm e d b = Inr b1"
  shows "helper_runs b1 =
           helper_runs b +
           (if test b
            then (case kind b of
                    Builder \<Rightarrow> if ran_setup_test_specfile b then 0 else 1
                  | NoTgzBuilder \<Rightarrow> 1)
            else 0)"
    and "ran_setup_test_specfile b1 =
           (ran_setup_test_specfile b \<or> (kind b = Builder \<and> test b))"
    and "ran_tgz b \<Longrightarrow> sources b1 = sources b"
    and "ran_tgz b \<Longrightarrow> spec_file b1 = spec_file b"
proof -
  define b1' where "b1' = create_build_dirs b"
  define b2 where "b2 = (if \<not> ran_tgz b1' then tgz e b1' else b1')"
  define b3 where "b3 = (if test b2 then setup_test_specfile e b2 else b2)"
  define cmd where "cmd = srpm_cmd b3 (define_dist_of (dist b3) d)"
  have s2: "same_settings b b2"
    using create_build_dirs_facts(1)[of b] tgz_facts(1)[of b1' e]
    by (auto simp: b2_def b1'_def intro: same_settings_trans)
  have k: "kind b2 = kind b" "test b2 = test b"
    using s2 by (simp_all add: same_settings_def)
  have r2: "ran_setup_test_specfile b2 = ran_setup_test_specfile b"
    "helper_runs b2 = helper_runs b"
    by (simp_all add: b2_def b1'_def tgz_facts create_build_dirs_facts)
  have b1: "b1 = b3\<lparr>effects := effects b3 @ [Rpmbuild cmd],
                srpm_location := Some (first_field (wrote_suffixes (run_command e cmd))),
                artifacts := artifacts b3 @ [first_field (wrote_suffixes (run_command e cmd))]\<rparr>"
    using assms unfolding cmd_def b3_def b2_def b1'_def
    by (simp_all add: srpm_def Let_def find_wrote_eq split: if_splits)
  have h3: "helper_runs b3 =
           helper_runs b +
           (if test b
            then (case kind b of
                    Builder \<Rightarrow> if ran_setup_test_specfile b then 0 else 1
                  | NoTgzBuilder \<Rightarrow> 1)
            else 0)"
    using k r2 by (simp add: b3_def more_facts)
  have "helper_runs b1 = helper_runs b3"
    by (simp add: b1 helper_runs_def)
  with h3 show "helper_runs b1 =
           helper_runs b +
           (if test b
            then (case kind b of
                    Builder \<Rightarrow> if ran_setup_test_specfile b then 0 else 1
                  | NoTgzBuilder \<Rightarrow> 1)
            else 0)"
    by simp
  have "ran_setup_test_specfile b1 = ran_setup_test_specfile b3"
    by (simp add: b1)
  then show "ran_setup_test_specfile b1 =
           (ran_setup_test_specfile b \<or> (kind b = Builder \<and> test b))"
    using k r2 by (auto simp add: b3_def more_facts)
  show "sources b1 = sources b" if "ran_tgz b"
    using that by (simp add: b1 b3_def b2_def b1'_def more_facts create_build_dirs_facts)
  show "spec_file b1 = spec_file b" if "ran_tgz b"
    using that
    by (simp add: b1 b3_def b2_def b1'_def setup_test_specfile_facts create_build_dirs_facts)
qed

lemma wrote_suffixes_nonempty:
  "wrote_suffixes (''Wrote: '' @ r) \<noteq> []"
proof -
  have "first_field (split_on nl (''Wrote: '' @ r)) = ''Wrote: '' @ takeWhile (\<lambda>x. x \<noteq> nl) r"
    unfolding first_field_split_on by (simp add: nl_def)
  then obtain ws where "split_on nl (''Wrote: '' @ r) = (''Wrote: '' @ takeWhile (\<lambda>x. x \<noteq> nl) r) # ws"
    by (cases "split_on nl (''Wrote: '' @ r)") (simp_all add: split_on_nonempty)
  then show ?thesis
    by (simp add: wrote_suffixes_def startswith_def)
qed

lemma example_env_wrote: "wrote_suffixes (run_command example_env cmd) \<noteq> []"
  using wrote_suffixes_nonempty[of "''/tmp/tito/pkg-1.0-1'' @ dist_in cmd @ ''.src.rpm'' @ [nl]"]
  by (simp add: example_env_def)

lemma koji_loop_succeeds:
  assumes w: "\<And>cmd. wrote_suffixes (run_command e cmd) \<noteq> []"
  shows "(\<And>t. t \<in> set tags \<Longrightarrow> config b (t, ''disttag'') \<noteq> None) \<Longrightarrow>
           \<exists>b'. koji_loop e opts tags b = Inr b'"
proof (induction tags arbitrary: b)
  case Nil
  then show ?case by simp
next
  case (Cons t rest)
  from Cons.prems[of t] obtain disttag where d: "config b (t, ''disttag'') = Some disttag"
    by auto
  from w srpm_cases[of e "Some disttag" b] obtain b1 where
    b1: "srpm e (Some disttag) b = Inr b1"
    by blast
  have c: "config (submit_build ''koji'' opts t b1) = config b"
    using same_settings_trans[OF srpm_Inr(1)[OF b1] submit_build_facts(1)]
    by (simp add: same_settings_def)
  have 1: "\<exists>b'. koji_loop e opts rest b = Inr b'"
    using Cons.prems by (intro Cons.IH) simp
  have 2: "\<exists>b'. koji_loop e opts rest (submit_build ''koji'' opts t b1) = Inr b'"
    using Cons.prems by (intro Cons.IH) (simp add: c)
  from 1 2 d b1 show ?case
    by (simp add: config_get_def)
qed

subsection \<open>A Koji release\<close>

lemma koji_release_trace:
  assumes "koji_release e b = Inr b'"
  shows "build_trace b' =
           build_trace b @ concat (map (koji_tag_effects e b) (koji_tags_built b))"
proof -
  from assms obtain autobuild_tags where
    a: "config b (''koji'', ''autobuild_tags'') = Some autobuild_tags"
    by (cases "config b (''koji'', ''autobuild_tags'')") (auto simp: koji_release_eq)
  with assms have
    "koji_loop e (koji_opts_of b) (split_on CHR '' '' (strip autobuild_tags)) b = Inr b'"
    by (simp add: koji_release_eq)
  from koji_loop_trace[OF this] a show ?thesis
    by (simp add: koji_tags_built_def)
qed

lemma koji_loop_helper:
  "koji_loop e opts tags b = Inr b' \<Longrightarrow>
     helper_runs b' =
       helper_runs b +
       (if test b
        then (case kind b of
                Builder \<Rightarrow>
                  if ran_setup_test_specfile b \<or> filter (koji_tag_selected b) tags = []
                  then 0 else 1
              | NoTgzBuilder \<Rightarrow> length (filter (koji_tag_selected b) tags))
        else 0)"
proof (induction tags arbitrary: b)
  case Nil
  then show ?case by (simp split: variant.splits)
next
  case (Cons t rest)
  show ?case
  proof (cases "koji_tag_selected b t")
    case False
    from Cons.IH[OF koji_loop_skip[OF False Cons.prems]] False show ?thesis
      by (cases "kind b") auto
  next
    case True
    from koji_loop_step[OF True Cons.prems] obtain disttag b1 where
      b1: "srpm e (Some disttag) b = Inr b1"
      and rest: "koji_loop e opts rest (submit_build ''koji'' opts t b1) = Inr b'"
      by blast
    let ?b2 = "submit_build ''koji'' opts t b1"
    note f = srpm_Inr[OF b1] and g = srpm_more[OF b1]
    have s2: "same_settings b ?b2"
      using f(1) submit_build_facts(1) by (rule same_settings_trans)
    have r2: "spec_file_ready e ?b2 = spec_file_ready e b"
      using f(2,3) by (simp add: spec_file_ready_def submit_build_facts)
    have k: "kind ?b2 = kind b" "test ?b2 = test b"
      using s2 by (simp_all add: same_settings_def)
    have sel: "koji_tag_selected ?b2 = koji_tag_selected b"
      using koji_tag_effects_cong(2)[OF s2 r2] .
    have flag: "ran_setup_test_specfile ?b2 =
                  (ran_setup_test_specfile b \<or> (kind b = Builder \<and> test b))"
      using g(2) by (simp add: submit_build_def)
    have h2: "helper_runs ?b2 = helper_runs b +
           (if test b
            then (case kind b of
                    Builder \<Rightarrow> if ran_setup_test_specfile b then 0 else 1
                  | NoTgzBuilder \<Rightarrow> 1)
            else 0)"
      using g(1) by (simp add: submit_build_facts)
    from Cons.IH[OF rest] k sel flag h2 True show ?thesis
      by (cases "kind b") auto
  qed
qed

subsection \<open>The example run\<close>

lemma example_tags:
  "dist b = d \<Longrightarrow> config b = example_config \<Longrightarrow> only_tags b = None \<Longrightarrow>
     koji_tags_built b = [''f12'', ''el5'']"
  by (simp add: koji_tags_built_def example_config_def strip_def
      is_space_def koji_tag_selected_def koji_tag_allowed_def has_option_def
      is_whitelisted_def is_blacklisted_def)

lemma example_release_succeeds:
  assumes "config b = example_config"
  shows "\<exists>b'. koji_release example_env b = Inr b'"
proof -
  have "\<exists>b'. koji_loop example_env (koji_opts_of b) [''f12'', ''el5''] b = Inr b'"
    by (rule koji_loop_succeeds) (auto simp: example_env_wrote assms example_config_def)
  then show ?thesis
    by (simp add: koji_release_eq assms example_config_def strip_def is_space_def)
qed

lemma dist_in_srpm_cmd:
  assumes "sq \<notin> set (rpmbuild_options b)" "sq \<notin> set (get_rpmbuild_dir_options b)"
    "sq \<notin> set x"
  shows "dist_in (srpm_cmd b (''--define '' @ [sq] @ ''dist '' @ x @ [sq])) = x"
proof -
  let ?pre = "''LC_ALL=C rpmbuild --define '' @ [dq] @ ''_source_filedigest_algorithm md5'' @
     [dq] @ ''  --define '' @ [dq] @ ''_binary_filedigest_algorithm md5'' @ [dq] @ '' '' @
     rpmbuild_options b @ '' '' @ get_rpmbuild_dir_options b @ '' '' @ ''--define ''"
  let ?post = "'' --nodeps -bs '' @ str_opt (spec_file b)"
  have c: "srpm_cmd b (''--define '' @ [sq] @ ''dist '' @ x @ [sq]) =
             ?pre @ sq # (''dist '' @ x @ sq # ?post)"
    by (simp add: srpm_cmd_def)
  have p: "\<And>c. c \<in> set ?pre \<Longrightarrow> c \<noteq> sq"
    using assms(1,2) by (auto simp: sq_def dq_def)
  have "dropWhile (\<lambda>c. c \<noteq> sq) (?pre @ sq # (''dist '' @ x @ sq # ?post)) =
          sq # (''dist '' @ x @ sq # ?post)"
    using p by (subst dropWhile_append2) simp_all
  then have "dist_in (?pre @ sq # (''dist '' @ x @ sq # ?post)) =
               takeWhile (\<lambda>c. c \<noteq> sq) (x @ sq # ?post)"
    by (simp add: dist_in_def)
  also have "\<dots> = x"
  proof -
    have "\<And>c. c \<in> set x \<Longrightarrow> c \<noteq> sq"
      using assms(3) by auto
    then show ?thesis
      by (subst takeWhile_append2) simp_all
  qed
  finally show ?thesis using c by simp
qed

lemma example_no_sq:
  assumes "kind b = kind example_builder"
    "rpmbuild_sourcedir b = rpmbuild_sourcedir example_builder"
    "rpmbuild_builddir b = rpmbuild_builddir example_builder"
    "rpmbuild_basedir b = rpmbuild_basedir example_builder"
  shows "sq \<notin> set (get_rpmbuild_dir_options b)"
  using assms
  by (simp add: get_rpmbuild_dir_options_def rpmbuild_dir_options_of_def example_builder_def
      sq_def dq_def)

lemma example_koji_srpm_path:
  assumes "kind b = Builder" "rpmbuild_options b = []"
    "rpmbuild_sourcedir b = rpmbuild_sourcedir example_builder"
    "rpmbuild_builddir b = rpmbuild_builddir example_builder"
    "rpmbuild_basedir b = rpmbuild_basedir example_builder"
    "define_dist_of (dist b) (config b (t, ''disttag'')) =
       ''--define '' @ [sq] @ ''dist '' @ x @ [sq]"
    "sq \<notin> set x" "nl \<notin> set x"
  shows "koji_srpm_path example_env b t = ''/tmp/tito/pkg-1.0-1'' @ x @ ''.src.rpm''"
proof -
  let ?b = "b\<lparr>spec_file := spec_file_ready example_env b\<rparr>"
  have "sq \<notin> set (get_rpmbuild_dir_options ?b)"
    by (rule example_no_sq) (simp_all add: assms example_builder_def)
  then have "dist_in (srpm_cmd ?b (''--define '' @ [sq] @ ''dist '' @ x @ [sq])) = x"
    using assms(2,7) by (intro dist_in_srpm_cmd) simp_all
  then have "run_command example_env (koji_srpm_cmd example_env b t) =
               ''Wrote: /tmp/tito/pkg-1.0-1'' @ x @ ''.src.rpm'' @ [nl]"
    by (simp add: koji_srpm_cmd_def assms(6) example_env_def)
  moreover have "first_field (wrote_suffixes (''Wrote: /tmp/tito/pkg-1.0-1'' @ x @ ''.src.rpm'' @ [nl])) =
                   ''/tmp/tito/pkg-1.0-1'' @ x @ ''.src.rpm''"
  proof -
    have "first_field (split_on nl (''Wrote: /tmp/tito/pkg-1.0-1'' @ x @ ''.src.rpm'' @ [nl])) =
            ''Wrote: /tmp/tito/pkg-1.0-1'' @ x @ ''.src.rpm''"
    proof -
      have tw: "takeWhile (\<lambda>c. c \<noteq> nl) (x @ ys) = x @ takeWhile (\<lambda>c. c \<noteq> nl) ys" for ys
        using assms(8) by (intro takeWhile_append2) auto
      show ?thesis
        unfolding first_field_split_on by (simp add: tw[unfolded nl_def] nl_def)
    qed
    then obtain ws where
      "split_on nl (''Wrote: /tmp/tito/pkg-1.0-1'' @ x @ ''.src.rpm'' @ [nl]) =
         (''Wrote: /tmp/tito/pkg-1.0-1'' @ x @ ''.src.rpm'') # ws"
      by (cases "split_on nl (''Wrote: /tmp/tito/pkg-1.0-1'' @ x @ ''.src.rpm'' @ [nl])")
         (simp_all add: split_on_nonempty)
    then show ?thesis
      by (simp add: wrote_suffixes_def startswith_def)
  qed
  ultimately show ?thesis
    by (simp add: koji_srpm_path_def)
qed

lemma example_release_helper:
  assumes "config b = example_config" "only_tags b = None"
    "\<not> ran_setup_test_specfile b" "helper_runs b = 0"
  shows "map_sum id helper_runs (koji_release example_env b) =
           Inr (if test b then (case kind b of Builder \<Rightarrow> 1 | NoTgzBuilder \<Rightarrow> 2) else 0)"
proof -
  from example_release_succeeds[OF assms(1)] obtain b' where
    r: "koji_release example_env b = Inr b'"
    by blast
  have a: "config b (''koji'', ''autobuild_tags'') = Some ''f12 el5''"
    by (simp add: assms example_config_def)
  have t: "filter (koji_tag_selected b) (split_on CHR '' '' (strip ''f12 el5'')) = [''f12'', ''el5'']"
    using example_tags[OF refl assms(1,2)] a by (simp add: koji_tags_built_def)
  from r a have "koji_loop example_env (koji_opts_of b) (split_on CHR '' '' (strip ''f12 el5'')) b = Inr b'"
    by (simp add: koji_release_eq)
  from koji_loop_helper[OF this] t assms have
    "helper_runs b' = (if test b then (case kind b of Builder \<Rightarrow> 1 | NoTgzBuilder \<Rightarrow> 2) else 0)"
    by (simp split: variant.splits)
  with r show ?thesis by simp
qed

lemma example_release_trace:
  assumes b: "b = example_builder\<lparr>dist := d0\<rparr>"
    and f12: "define_dist_of d0 (Some ''.fc12'') = ''--define '' @ [sq] @ ''dist '' @ x @ [sq]"
    and el5: "define_dist_of d0 (Some ''.el5'') = ''--define '' @ [sq] @ ''dist '' @ y @ [sq]"
    and x: "sq \<notin> set x" "nl \<notin> set x" and y: "sq \<notin> set y" "nl \<notin> set y"
  shows "map_sum id build_trace (koji_release example_env b) =
     Inr [Rpmbuild (koji_srpm_cmd example_env b ''f12''),
          Submit (''koji build --nowait f12 /tmp/tito/pkg-1.0-1'' @ x @ ''.src.rpm''),
          Rpmbuild (koji_srpm_cmd example_env b ''el5''),
          Submit (''koji build --nowait el5 /tmp/tito/pkg-1.0-1'' @ y @ ''.src.rpm'')]"
proof -
  have c: "config b = example_config" "only_tags b = None" "dist b = d0"
    by (simp_all add: b example_builder_def)
  from example_release_succeeds[OF c(1)] obtain b' where
    r: "koji_release example_env b = Inr b'"
    by blast
  have p1: "koji_srpm_path example_env b ''f12'' = ''/tmp/tito/pkg-1.0-1'' @ x @ ''.src.rpm''"
    using f12 x
    by (intro example_koji_srpm_path) (simp_all add: b example_builder_def example_config_def)
  have p2: "koji_srpm_path example_env b ''el5'' = ''/tmp/tito/pkg-1.0-1'' @ y @ ''.src.rpm''"
    using el5 y
    by (intro example_koji_srpm_path) (simp_all add: b example_builder_def example_config_def)
  have o: "koji_opts_of b = ''build --nowait''" "dry_run b = False" "build_trace b = []"
    by (simp_all add: b example_builder_def koji_opts_of_def DEFAULT_KOJI_OPTS_def
        build_trace_def)
  from koji_release_trace[OF r] example_tags[OF c(3) c(1) c(2)] p1 p2 o
  have "build_trace b' =
     [Rpmbuild (koji_srpm_cmd example_env b ''f12''),
          Submit (''koji build --nowait f12 /tmp/tito/pkg-1.0-1'' @ x @ ''.src.rpm''),
          Rpmbuild (koji_srpm_cmd example_env b ''el5''),
          Submit (''koji build --nowait el5 /tmp/tito/pkg-1.0-1'' @ y @ ''.src.rpm'')]"
    by (simp add: koji_tag_effects_def submit_cmd_def str_opt_def)
  with r show ?thesis by simp
qed

subsection \<open>The test spec file helper\<close>

text \<open>
  Claim C7, at a build that is released to the two Koji tags of the example, so that
  \<^verbatim>\<open>_srpm\<close> runs twice. In a test build with the \<^verbatim>\<open>_setup_test_specfile\<close> of
  \<^verbatim>\<open>Builder\<close>, which checks and sets \<^verbatim>\<open>ran_setup_test_specfile\<close>, the helper runs
  once. In a test build with the override of \<^verbatim>\<open>NoTgzBuilder\<close>, which neither checks nor
  sets the flag, the helper runs twice, once for each tag. In a build that is not a
  test build it does not run, with either.
\<close>

theorem test_specfile_helper_runs:
  "map_sum id helper_runs
     (koji_release example_env (example_builder\<lparr>kind := NoTgzBuilder, test := True\<rparr>)) = Inr 2
   \<and> map_sum id helper_runs
       (koji_release example_env (example_builder\<lparr>test := True\<rparr>)) = Inr 1
   \<and> map_sum id helper_runs
       (koji_release example_env (example_builder\<lparr>kind := NoTgzBuilder\<rparr>)) = Inr 0
   \<and> map_sum id helper_runs (koji_release example_env example_builder) = Inr 0"
  using example_release_helper[of "example_builder\<lparr>kind := NoTgzBuilder, test := True\<rparr>"]
    example_release_helper[of "example_builder\<lparr>test := True\<rparr>"]
    example_release_helper[of "example_builder\<lparr>kind := NoTgzBuilder\<rparr>"]
    example_release_helper[of example_builder]
  by (simp add: example_builder_def helper_runs_def)

subsection \<open>Producing the sources once\<close>

text \<open>
  Claim C9, as the source has it. \<^verbatim>\<open>tgz\<close> exports the project and sets \<^verbatim>\<open>ran_tgz\<close>,
  and the check of the flag is in \<^verbatim>\<open>_srpm\<close>: a \<^verbatim>\<open>_srpm\<close> that succeeds leaves
  \<^verbatim>\<open>ran_tgz\<close> set, it exports once when the flag was not set and not at all when it
  was, and when it was set the sources and the spec file of the object are what they
  were.
\<close>

theorem srpm_exports_once:
  assumes "srpm e d b = Inr b1"
  shows "ran_tgz (tgz e b) \<and> export_count (tgz e b) = export_count b + 1
   \<and> ran_tgz b1
   \<and> export_count b1 = export_count b + (if ran_tgz b then 0 else 1)
   \<and> (ran_tgz b \<longrightarrow> sources b1 = sources b \<and> spec_file b1 = spec_file b)"
  using srpm_Inr(2,6)[OF assms] srpm_more(3,4)[OF assms] tgz_facts(2,6)[of e b]
  by simp

theorem srpm_exports_once_witness:
  "map_sum id (\<lambda>b1. (ran_tgz b1, export_count b1, sources b1))
     (srpm example_env None (tgz example_env example_builder)) =
   Inr (True, 1, [''/tmp/tito/pkg-1.0.tar.gz''])"
proof -
  let ?b = "tgz example_env example_builder"
  from srpm_cases[of example_env None ?b] example_env_wrote obtain b1 where
    r: "srpm example_env None ?b = Inr b1"
    by blast
  have t: "ran_tgz ?b" "export_count ?b = 1" "sources ?b = [''/tmp/tito/pkg-1.0.tar.gz'']"
    using tgz_facts(2,6)[of example_env example_builder]
      tgz_sources_Builder[of example_builder example_env]
    by (simp_all add: example_builder_def export_count_def path_join_def startswith_def
        endswith_def)
  from srpm_exports_once[OF r] t r show ?thesis
    by simp
qed

text \<open>
  Claim C9 as stated fails for \<^verbatim>\<open>tgz\<close> itself, which does not look at the flag: called
  a second time, as \<^verbatim>\<open>_cvs_release\<close> does after \<^verbatim>\<open>run\<close> has called it for \<^verbatim>\<open>--tgz\<close>, it
  exports a second time and lists the tarball a second time.
\<close>

theorem tgz_twice_counterexample:
  "ran_tgz (tgz example_env example_builder)
   \<and> export_count (tgz example_env example_builder) = 1
   \<and> export_count (tgz example_env (tgz example_env example_builder)) = 2
   \<and> sources (tgz example_env (tgz example_env example_builder)) =
       [''/tmp/tito/pkg-1.0.tar.gz'', ''/tmp/tito/pkg-1.0.tar.gz'']"
proof -
  let ?b = "tgz example_env example_builder"
  have s: "same_settings example_builder ?b"
    by (rule tgz_facts)
  then have k: "kind ?b = Builder" "rpmbuild_basedir ?b = ''/tmp/tito''"
    "tgz_filename ?b = ''pkg-1.0.tar.gz''"
    by (simp_all add: same_settings_def example_builder_def)
  have t: "ran_tgz ?b" "export_count ?b = 1" "sources ?b = [''/tmp/tito/pkg-1.0.tar.gz'']"
    using tgz_facts(2,6)[of example_env example_builder]
      tgz_sources_Builder[of example_builder example_env]
    by (simp_all add: example_builder_def export_count_def path_join_def startswith_def
        endswith_def)
  have "export_count (tgz example_env ?b) = 2"
    using tgz_facts(6)[of example_env ?b] t by simp
  moreover have "sources (tgz example_env ?b) =
       [''/tmp/tito/pkg-1.0.tar.gz'', ''/tmp/tito/pkg-1.0.tar.gz'']"
    using tgz_sources_Builder[OF k(1), of example_env] k t
    by (simp add: path_join_def startswith_def endswith_def)
  ultimately show ?thesis using t by simp
qed

subsection \<open>One source package for each Koji tag\<close>

text \<open>
  Claim C10, as the source has it. A Koji release that succeeds runs, for each
  configured tag that \<^verbatim>\<open>only_tags\<close> and the whitelist and blacklist let through, in
  the order of the configuration, one rpmbuild and then (unless \<^verbatim>\<open>--dry-run\<close>) one
  submission, and nothing else of the two kinds. The rpmbuild of a tag defines \<^verbatim>\<open>dist\<close>
  as the caller's \<^verbatim>\<open>dist\<close> option when that is set, and as the dist tag configured for
  the tag otherwise; the submission of the tag names the source package that this very
  rpmbuild reported.
\<close>

theorem koji_release_builds_per_tag:
  assumes "koji_release e b = Inr b'"
  shows "build_trace b' =
           build_trace b @ concat (map (koji_tag_effects e b) (koji_tags_built b))"
  using assms by (rule koji_release_trace)

theorem koji_release_builds_per_tag_witness:
  "map_sum id build_trace (koji_release example_env example_builder) =
     Inr [Rpmbuild (koji_srpm_cmd example_env example_builder ''f12''),
          Submit ''koji build --nowait f12 /tmp/tito/pkg-1.0-1.fc12.src.rpm'',
          Rpmbuild (koji_srpm_cmd example_env example_builder ''el5''),
          Submit ''koji build --nowait el5 /tmp/tito/pkg-1.0-1.el5.src.rpm'']"
proof -
  have c: "config example_builder = example_config" "only_tags example_builder = None"
    "dist example_builder = None"
    by (simp_all add: example_builder_def)
  from example_release_succeeds[OF c(1)] obtain b' where
    r: "koji_release example_env example_builder = Inr b'"
    by blast
  have p1: "koji_srpm_path example_env example_builder ''f12'' =
              ''/tmp/tito/pkg-1.0-1'' @ ''.fc12'' @ ''.src.rpm''"
    by (intro example_koji_srpm_path)
       (simp_all add: example_builder_def example_config_def define_dist_of_def truthy_def
          str_opt_def sq_def nl_def)
  have p2: "koji_srpm_path example_env example_builder ''el5'' =
              ''/tmp/tito/pkg-1.0-1'' @ ''.el5'' @ ''.src.rpm''"
    by (intro example_koji_srpm_path)
       (simp_all add: example_builder_def example_config_def define_dist_of_def truthy_def
          str_opt_def sq_def nl_def)
  have o: "koji_opts_of example_builder = ''build --nowait''"
    "dry_run example_builder = False" "build_trace example_builder = []"
    by (simp_all add: example_builder_def koji_opts_of_def DEFAULT_KOJI_OPTS_def
        build_trace_def)
  from koji_release_builds_per_tag[OF r] example_tags[OF c(3) c(1) c(2)] p1 p2 o
  have "build_trace b' =
     [Rpmbuild (koji_srpm_cmd example_env example_builder ''f12''),
          Submit ''koji build --nowait f12 /tmp/tito/pkg-1.0-1.fc12.src.rpm'',
          Rpmbuild (koji_srpm_cmd example_env example_builder ''el5''),
          Submit ''koji build --nowait el5 /tmp/tito/pkg-1.0-1.el5.src.rpm'']"
    by (simp add: koji_tag_effects_def submit_cmd_def str_opt_def)
  with r show ?thesis by simp
qed

text \<open>
  Claim C10 as stated fails when the caller gives a \<^verbatim>\<open>dist\<close> option: with
  \<^verbatim>\<open>dist = .el5\<close> the source package for the tag \<^verbatim>\<open>f12\<close>, whose configured dist tag is
  \<^verbatim>\<open>.fc12\<close>, is built with \<^verbatim>\<open>--define 'dist .el5'\<close>, and the \<^verbatim>\<open>.el5\<close> package is what
  is submitted for \<^verbatim>\<open>f12\<close>.
\<close>

theorem koji_release_dist_override_counterexample:
  "config (example_builder\<lparr>dist := Some ''.el5''\<rparr>) (''f12'', ''disttag'') = Some ''.fc12''
   \<and> koji_srpm_cmd example_env (example_builder\<lparr>dist := Some ''.el5''\<rparr>) ''f12'' =
       srpm_cmd (example_builder\<lparr>dist := Some ''.el5'',
           spec_file := Some ''/tmp/tito/rpmbuild-pkg-0123456789abcdef/SOURCES/pkg-1.0/pkg.spec''\<rparr>)
         (''--define '' @ [sq] @ ''dist .el5'' @ [sq])
   \<and> map_sum id build_trace
        (koji_release example_env (example_builder\<lparr>dist := Some ''.el5''\<rparr>)) =
       Inr [Rpmbuild (koji_srpm_cmd example_env (example_builder\<lparr>dist := Some ''.el5''\<rparr>) ''f12''),
            Submit ''koji build --nowait f12 /tmp/tito/pkg-1.0-1.el5.src.rpm'',
            Rpmbuild (koji_srpm_cmd example_env (example_builder\<lparr>dist := Some ''.el5''\<rparr>) ''el5''),
            Submit ''koji build --nowait el5 /tmp/tito/pkg-1.0-1.el5.src.rpm'']"
proof (intro conjI)
  show "config (example_builder\<lparr>dist := Some ''.el5''\<rparr>) (''f12'', ''disttag'') = Some ''.fc12''"
    by (simp add: example_builder_def example_config_def)
  show "koji_srpm_cmd example_env (example_builder\<lparr>dist := Some ''.el5''\<rparr>) ''f12'' =
       srpm_cmd (example_builder\<lparr>dist := Some ''.el5'',
           spec_file := Some ''/tmp/tito/rpmbuild-pkg-0123456789abcdef/SOURCES/pkg-1.0/pkg.spec''\<rparr>)
         (''--define '' @ [sq] @ ''dist .el5'' @ [sq])"
    by (simp add: koji_srpm_cmd_def spec_file_ready_def example_builder_def example_env_def
        example_config_def define_dist_of_def truthy_def str_opt_def path_join_def
        startswith_def endswith_def)
  show "map_sum id build_trace
        (koji_release example_env (example_builder\<lparr>dist := Some ''.el5''\<rparr>)) =
       Inr [Rpmbuild (koji_srpm_cmd example_env (example_builder\<lparr>dist := Some ''.el5''\<rparr>) ''f12''),
            Submit ''koji build --nowait f12 /tmp/tito/pkg-1.0-1.el5.src.rpm'',
            Rpmbuild (koji_srpm_cmd example_env (example_builder\<lparr>dist := Some ''.el5''\<rparr>) ''el5''),
            Submit ''koji build --nowait el5 /tmp/tito/pkg-1.0-1.el5.src.rpm'']"
    using example_release_trace[OF refl, of "Some ''.el5''" "''.el5''" "''.el5''"]
    by (simp add: define_dist_of_def truthy_def str_opt_def sq_def nl_def)
qed

end
